theory Spec2Isabelle
  imports Main "HOL-Library.AList" "HOL-Library.Sublist"
begin

section \<open>LangJS: a shallow embedding of \<^verbatim>\<open>src/langjs.js\<close>\<close>

text \<open>
  The class \<^verbatim>\<open>LangJS\<close> keeps an active language, its dictionary and a cache of
  resolved translations, and writes translations into the page. Its methods are embedded
  as functions that take the instance (together with the part of the browser they touch)
  and return it updated. The configuration object is assigned once in the constructor and
  never written again, so the methods take it as a separate argument.

  Modelling decisions, each local to the definition it concerns:
  \<^item> strings are \<open>char list\<close>; the characters the code itself looks for (\<open>.\<close>,
    \<open>{\<close>, \<open>}\<close>, the word characters of \<^verbatim>\<open>\w\<close>) are ASCII, and lower-casing is
    left to the host;
  \<^item> a dictionary is the value \<^verbatim>\<open>response.json()\<close> returned, restricted to strings,
    plain objects and \<^verbatim>\<open>null\<close> (the data model has string leaves and named groups);
  \<^item> a parameter object is the list of its own enumerable properties, the values already
    in their string form;
  \<^item> the page is an HTML document: tag names are in upper case, the configured marker
    attributes are names a selector \<^verbatim>\<open>[name]\<close> accepts and are compared as written, and
    a form control takes any string as its value;
  \<^item> \<^verbatim>\<open>log\<close> only prints to the console and is left out;
  \<^item> \<^verbatim>\<open>setLanguage\<close> is run to completion without another activation interleaved at
    its \<^verbatim>\<open>await\<close>.
\<close>

subsection \<open>JavaScript values and property lookup\<close>

text \<open>
  \<open>JProto\<close> is \<^verbatim>\<open>Object.prototype\<close>, which every plain object inherits from, and
  \<open>JFun n\<close> the built-in function found there under the name \<open>n\<close>: the operator
  \<^verbatim>\<open>in\<close> and the member access \<^verbatim>\<open>value[k]\<close> of \<^verbatim>\<open>get\<close> both follow the prototype
  chain.
\<close>

datatype jsval =
    JStr string
  | JObj "(string \<times> jsval) list"
  | JProto
  | JFun string
  | JNull

datatype error = TypeError

type_synonym params = "(string \<times> string) list"

definition Object_prototype_methods :: "string list" where
  "Object_prototype_methods =
     [''constructor'', ''hasOwnProperty'', ''isPrototypeOf'', ''propertyIsEnumerable'',
      ''toLocaleString'', ''toString'', ''valueOf'', ''__defineGetter__'',
      ''__defineSetter__'', ''__lookupGetter__'', ''__lookupSetter__'']"

text \<open>The own properties of \<^verbatim>\<open>Object.prototype\<close>; its \<^verbatim>\<open>__proto__\<close> is \<^verbatim>\<open>null\<close>.\<close>

definition proto_property :: "string \<Rightarrow> jsval option" where
  "proto_property k =
     (if k = ''__proto__'' then Some JNull
      else if k \<in> set Object_prototype_methods then Some (JFun k)
      else None)"

text \<open>
  \<open>lookup_property v k\<close> is \<open>Some\<close> exactly when \<^verbatim>\<open>k in v\<close> holds, and then carries
  \<^verbatim>\<open>v[k]\<close>: an own property first, an inherited one otherwise.
\<close>

fun lookup_property :: "jsval \<Rightarrow> string \<Rightarrow> jsval option" where
  "lookup_property (JObj kvs) k =
     (case map_of kvs k of
        Some v \<Rightarrow> Some v
      | None \<Rightarrow> if k = ''__proto__'' then Some JProto else proto_property k)"
| "lookup_property JProto k = proto_property k"
| "lookup_property _ k = None"

text \<open>The guard \<^verbatim>\<open>value && typeof value === 'object'\<close>.\<close>

fun truthy_object :: "jsval \<Rightarrow> bool" where
  "truthy_object (JObj kvs) = True"
| "truthy_object JProto = True"
| "truthy_object _ = False"

fun is_string :: "jsval \<Rightarrow> bool" where
  "is_string (JStr s) = True"
| "is_string _ = False"

subsection \<open>Splitting a key and walking the dictionary\<close>

text \<open>\<^verbatim>\<open>key.split('.')\<close>: always at least one segment, empty segments kept.\<close>

fun split_dot :: "string \<Rightarrow> string list" where
  "split_dot [] = [[]]"
| "split_dot (c # cs) =
     (if c = CHR ''.'' then [] # split_dot cs
      else (case split_dot cs of
              [] \<Rightarrow> [[c]]
            | s # ss \<Rightarrow> (c # s) # ss))"

text \<open>
  The loop of \<^verbatim>\<open>get\<close> over the segments. \<open>None\<close> is the \<^verbatim>\<open>else\<close> branch, where the
  source assigns \<^verbatim>\<open>value = key\<close> and leaves the loop.
\<close>

fun walk :: "jsval \<Rightarrow> string list \<Rightarrow> jsval option" where
  "walk v [] = Some v"
| "walk v (k # ks) =
     (if truthy_object v then
        (case lookup_property v k of
           Some v' \<Rightarrow> walk v' ks
         | None \<Rightarrow> None)
      else None)"

subsection \<open>Interpolation\<close>

text \<open>The class \<^verbatim>\<open>\w\<close> of a regular expression without the unicode flag.\<close>

definition word_char :: "char \<Rightarrow> bool" where
  "word_char c \<longleftrightarrow>
     c \<in> set ''abcdefghijklmnopqrstuvwxyzABCDEFGHIJKLMNOPQRSTUVWXYZ0123456789_''"

text \<open>
  The callback of \<^verbatim>\<open>replace\<close>. \<^verbatim>\<open>params.hasOwnProperty\<close> is looked up on the parameter
  object itself: when the object has an own property of that name, the property's value
  (a string here) is what gets called, and the call throws a \<^verbatim>\<open>TypeError\<close>.
\<close>

definition replacer :: "params \<Rightarrow> string \<Rightarrow> string \<Rightarrow> error + string" where
  "replacer ps match key =
     (if map_of ps ''hasOwnProperty'' \<noteq> None then Inl TypeError
      else (case map_of ps key of
              Some v \<Rightarrow> Inr v
            | None \<Rightarrow> Inr match))"

text \<open>
  \<^verbatim>\<open>text.replace(/\{(\w+)\}/g, callback)\<close>: the matches are found from left to right
  in the original text, a match is an opening brace, the longest non-empty run of word
  characters and a closing brace, and the scan goes on behind the match. What the
  callback returns is put in as it is.
\<close>

function interpolate :: "string \<Rightarrow> params \<Rightarrow> error + string" where
  "interpolate [] ps = Inr []"
| "interpolate (c # cs) ps =
     (let name = takeWhile word_char cs; rest = dropWhile word_char cs in
      if c = CHR ''{'' \<and> name \<noteq> [] \<and> rest \<noteq> [] \<and> hd rest = CHR ''}'' then
        (case replacer ps (c # name @ ''}'') name of
           Inl e \<Rightarrow> Inl e
         | Inr r \<Rightarrow>
             (case interpolate (tl rest) ps of
                Inl e \<Rightarrow> Inl e
              | Inr out \<Rightarrow> Inr (r @ out)))
      else
        (case interpolate cs ps of
           Inl e \<Rightarrow> Inl e
         | Inr out \<Rightarrow> Inr (c # out)))"
  by pat_completeness auto
termination
proof (relation "measure (\<lambda>(t, ps). length t)")
  show "wf (measure (\<lambda>(t, ps). length t))" by simp
next
  fix c :: char and cs :: string and ps :: params and name rest :: string
  assume "rest = dropWhile word_char cs"
  then have "length (tl rest) \<le> length cs"
    using length_dropWhile_le [of word_char cs] by simp
  then show "((tl rest, ps), c # cs, ps) \<in> measure (\<lambda>(t, ps). length t)" by simp
next
  fix c :: char and cs :: string and ps :: params
  show "((cs, ps), c # cs, ps) \<in> measure (\<lambda>(t, ps). length t)" by simp
qed

subsection \<open>The page\<close>

text \<open>
  The document is a tree of HTML elements and text nodes. An element carries its tag
  name (upper case, as \<^verbatim>\<open>tagName\<close> reports it), its attributes, the \<^verbatim>\<open>value\<close> of a
  form control, the properties a script has added to the element object, and its child
  nodes. A node of the page is named by the path of child indices that leads to it.
\<close>

datatype node =
    Text string
  | Element (tagName: string) (attrs: "(string \<times> string) list") (control_value: string)
      (expando: "(string \<times> jsval) list") (childNodes: "node list")

type_synonym path = "nat list"

subsection \<open>The instance and the browser around it\<close>

datatype outcome = Returns | Throws

record Config =
  languagePath :: string
  defaultLanguage :: string
  persistKey :: string
  fallbackLanguage :: string
  detectBrowser :: bool
  attributes :: "string list"
  placeholderAttribute :: string
  titleAttribute :: string
  autoInit :: bool
  onLanguageChange :: "(string \<Rightarrow> outcome) option"
  debug :: bool

text \<open>
  The fields of the instance come first. \<open>availableLanguages\<close> and the observers are
  references: arrays live in \<open>arrays\<close>, \<open>connected\<close> holds the mutation observers
  that are watching, and \<open>next_ref\<close> is the reference the next new object gets. \<open>localStorage\<close> is \<open>None\<close> when any access to it throws;
  \<open>fetch_json\<close> is the dictionary source, \<open>None\<close> at a URL whose retrieval fails in
  any way (transport, HTTP status, malformed JSON). \<^verbatim>\<open>JSON.stringify\<close> on parameter
  objects, the source text of built-in functions and \<^verbatim>\<open>String.prototype.toLowerCase\<close>
  are the host's, taken as given.
  \<open>walks\<close> and \<open>requests\<close> are not in the source: they count the dictionary walks of
  \<^verbatim>\<open>get\<close> and record the URLs \<^verbatim>\<open>loadLanguageFile\<close> asked for.
\<close>

record LangJS =
  currentLanguage :: "string option"
  languageDict :: jsval
  availableLanguages :: nat
  observers :: "nat list"
  translationCache :: "string \<rightharpoonup> jsval"
  arrays :: "nat \<rightharpoonup> string list"
  next_ref :: nat
  connected :: "nat set"
  document :: node
  localStorage :: "(string \<rightharpoonup> string) option"
  navigator_language :: "string option"
  navigator_userLanguage :: "string option"
  fetch_json :: "string \<rightharpoonup> jsval"
  JSON_stringify :: "params \<Rightarrow> string"
  Function_toString :: "string \<Rightarrow> string"
  toLowerCase :: "string \<Rightarrow> string"
  walks :: nat
  requests :: "string list"

text \<open>The array \<^verbatim>\<open>this.availableLanguages\<close> refers to.\<close>

definition available :: "'a LangJS_scheme \<Rightarrow> string list" where
  "available st = (case arrays st (availableLanguages st) of Some xs \<Rightarrow> xs | None \<Rightarrow> [])"

subsection \<open>\<^verbatim>\<open>get\<close>\<close>

text \<open>
  \<open>resolve\<close> is the part of \<^verbatim>\<open>get\<close> between the cache lookup and the cache write:
  the walk, the fall back to the key where the walk stops, and the interpolation of a
  string result when \<^verbatim>\<open>Object.keys(params).length > 0\<close>.
\<close>

definition resolve :: "jsval \<Rightarrow> string \<Rightarrow> params \<Rightarrow> error + jsval" where
  "resolve dict key ps =
     (let found = (case walk dict (split_dot key) of
                     Some v \<Rightarrow> v
                   | None \<Rightarrow> JStr key)
      in case found of
           JStr s \<Rightarrow>
             if ps \<noteq> [] then map_sum id JStr (interpolate s ps)
             else Inr found
         | _ \<Rightarrow> Inr found)"

definition cacheKey :: "'a LangJS_scheme \<Rightarrow> string \<Rightarrow> params \<Rightarrow> string" where
  "cacheKey st key ps = key @ ''_'' @ JSON_stringify st ps"

text \<open>An exception of \<^verbatim>\<open>interpolate\<close> leaves \<^verbatim>\<open>get\<close> before the cache is written.\<close>

definition get :: "LangJS \<Rightarrow> string \<Rightarrow> params \<Rightarrow> (error + jsval) \<times> LangJS" where
  "get st key ps =
     (case translationCache st (cacheKey st key ps) of
        Some cached \<Rightarrow> (Inr cached, st)
      | None \<Rightarrow>
          (let st1 = st\<lparr>walks := Suc (walks st)\<rparr>
           in case resolve (languageDict st) key ps of
                Inl e \<Rightarrow> (Inl e, st1)
              | Inr v \<Rightarrow>
                  (Inr v,
                   st1\<lparr>translationCache := (translationCache st1)(cacheKey st key ps \<mapsto> v)\<rparr>)))"

subsection \<open>Writing into elements\<close>

text \<open>
  \<^verbatim>\<open>get\<close> may hand back a value that is not a string; the page turns it into one.
  \<^verbatim>\<open>textContent\<close> and the \<^verbatim>\<open>value\<close> of a form control read \<^verbatim>\<open>null\<close> as the empty
  string, the reflected attributes and \<^verbatim>\<open>setAttribute\<close> as \<^verbatim>\<open>"null"\<close>.
\<close>

fun ToString :: "(string \<Rightarrow> string) \<Rightarrow> jsval \<Rightarrow> string" where
  "ToString src (JStr s) = s"
| "ToString src (JObj kvs) = ''[object Object]''"
| "ToString src JProto = ''[object Object]''"
| "ToString src (JFun n) = src n"
| "ToString src JNull = ''null''"

fun null_as_empty :: "(string \<Rightarrow> string) \<Rightarrow> jsval \<Rightarrow> string" where
  "null_as_empty src JNull = []"
| "null_as_empty src v = ToString src v"

text \<open>Assigning \<^verbatim>\<open>textContent\<close> replaces all children by one text node, or by none.\<close>

fun set_textContent :: "string \<Rightarrow> node \<Rightarrow> node" where
  "set_textContent s (Element t as v ex cs) =
     Element t as v ex (if s = [] then [] else [Text s])"
| "set_textContent s (Text d) = Text s"

fun set_control_value :: "string \<Rightarrow> node \<Rightarrow> node" where
  "set_control_value s (Element t as v ex cs) = Element t as s ex cs"
| "set_control_value s (Text d) = Text d"

fun setAttribute :: "string \<Rightarrow> string \<Rightarrow> node \<Rightarrow> node" where
  "setAttribute a s (Element t as v ex cs) = Element t (AList.update a s as) v ex cs"
| "setAttribute a s (Text d) = Text d"

fun set_expando :: "string \<Rightarrow> jsval \<Rightarrow> node \<Rightarrow> node" where
  "set_expando a x (Element t as v ex cs) = Element t as v (AList.update a x ex) cs"
| "set_expando a x (Text d) = Text d"

definition is_text_control :: "node \<Rightarrow> bool" where
  "is_text_control el \<longleftrightarrow>
     (case el of
        Element t as v ex cs \<Rightarrow> t = ''INPUT'' \<or> t = ''TEXTAREA''
      | Text d \<Rightarrow> False)"

text \<open>
  The four assignments of \<^verbatim>\<open>translatePage\<close>. \<^verbatim>\<open>placeholder\<close> is a reflected
  attribute of \<^verbatim>\<open>input\<close> and \<^verbatim>\<open>textarea\<close> only; on any other element the assignment
  adds a property to the element object. \<^verbatim>\<open>title\<close> is reflected on every HTML element.
\<close>

definition write_content :: "(string \<Rightarrow> string) \<Rightarrow> jsval \<Rightarrow> node \<Rightarrow> node" where
  "write_content src x el =
     (if is_text_control el then set_control_value (null_as_empty src x) el
      else set_textContent (null_as_empty src x) el)"

definition write_text :: "(string \<Rightarrow> string) \<Rightarrow> jsval \<Rightarrow> node \<Rightarrow> node" where
  "write_text src x el = set_textContent (null_as_empty src x) el"

definition write_placeholder :: "(string \<Rightarrow> string) \<Rightarrow> jsval \<Rightarrow> node \<Rightarrow> node" where
  "write_placeholder src x el =
     (if is_text_control el then setAttribute ''placeholder'' (ToString src x) el
      else set_expando ''placeholder'' x el)"

definition write_title :: "(string \<Rightarrow> string) \<Rightarrow> jsval \<Rightarrow> node \<Rightarrow> node" where
  "write_title src x el = setAttribute ''title'' (ToString src x) el"

definition write_aria :: "(string \<Rightarrow> string) \<Rightarrow> jsval \<Rightarrow> node \<Rightarrow> node" where
  "write_aria src x el = setAttribute ''aria-label'' (ToString src x) el"

subsection \<open>Selecting elements and writing through their references\<close>

text \<open>
  \<^verbatim>\<open>querySelectorAll('[a]')\<close> returns a static list, in tree order, of the elements that
  carry the attribute \<open>a\<close>. Each entry is kept here as the path of the element and the
  attribute's value: no step of a pass changes a marker attribute of an element it has
  not reached yet. \<open>select_all\<close> is the query on the document (the root element
  included), \<open>select_children\<close> on an element (its descendants only).
\<close>

fun select_all :: "string \<Rightarrow> node \<Rightarrow> (path \<times> string) list"
  and select_children :: "string \<Rightarrow> nat \<Rightarrow> node list \<Rightarrow> (path \<times> string) list" where
  "select_all a (Text d) = []"
| "select_all a (Element t as v ex cs) =
     (case map_of as a of
        Some key \<Rightarrow> [([], key)]
      | None \<Rightarrow> []) @ select_children a 0 cs"
| "select_children a i [] = []"
| "select_children a i (c # cs) =
     map (\<lambda>(p, key). (i # p, key)) (select_all a c) @ select_children a (Suc i) cs"

text \<open>
  A write through an element reference. The only change of structure a pass makes is
  \<^verbatim>\<open>textContent\<close>, which detaches every descendant of the element written to; a later
  write to a detached element is not seen in the tree, and its path then leads to no
  element.
\<close>

fun update_at :: "path \<Rightarrow> (node \<Rightarrow> node) \<Rightarrow> node \<Rightarrow> node" where
  "update_at p f (Text d) = Text d"
| "update_at [] f (Element t as v ex cs) = f (Element t as v ex cs)"
| "update_at (i # p) f (Element t as v ex cs) =
     (if i < length cs then Element t as v ex (cs[i := update_at p f (cs ! i)])
      else Element t as v ex cs)"

subsection \<open>\<^verbatim>\<open>translatePage\<close> and \<^verbatim>\<open>translateElement\<close>\<close>

text \<open>
  The callback of each \<^verbatim>\<open>forEach\<close> over a query result: skip an empty key, resolve
  the key with \<^verbatim>\<open>this.get(key)\<close>, write the result with \<open>w\<close>. The \<open>Inl\<close> branch is
  never taken, as \<^verbatim>\<open>get\<close> without parameters does not throw (lemma \<open>get_no_params\<close>).
\<close>

definition translate_one ::
  "((string \<Rightarrow> string) \<Rightarrow> jsval \<Rightarrow> node \<Rightarrow> node) \<Rightarrow> LangJS \<Rightarrow> path \<times> string \<Rightarrow> LangJS" where
  "translate_one w st target =
     (case target of
        (p, key) \<Rightarrow>
          if key \<noteq> [] then
            (case get st key [] of
               (Inr x, st') \<Rightarrow>
                 st'\<lparr>document := update_at p (w (Function_toString st') x) (document st')\<rparr>
             | (Inl e, st') \<Rightarrow> st')
          else st)"

definition translate_each ::
  "((string \<Rightarrow> string) \<Rightarrow> jsval \<Rightarrow> node \<Rightarrow> node) \<Rightarrow> LangJS \<Rightarrow> (path \<times> string) list \<Rightarrow> LangJS" where
  "translate_each w st targets = foldl (translate_one w) st targets"

definition translatePage :: "Config \<Rightarrow> LangJS \<Rightarrow> LangJS" where
  "translatePage cfg st =
     (let st1 = foldl (\<lambda>s a. translate_each write_content s (select_all a (document s)))
                  st (attributes cfg);
          st2 = translate_each write_placeholder st1
                  (select_all (placeholderAttribute cfg) (document st1));
          st3 = translate_each write_title st2
                  (select_all (titleAttribute cfg) (document st2))
      in translate_each write_aria st3 (select_all ''translate-aria'' (document st3)))"

text \<open>
  \<^verbatim>\<open>translateElement(element)\<close> for an element of the page, given by its path \<open>at\<close>.
  First the element itself, once per configured attribute, then its descendants.
\<close>

fun node_at :: "path \<Rightarrow> node \<Rightarrow> node option" where
  "node_at [] n = Some n"
| "node_at (i # p) (Element t as v ex cs) =
     (if i < length cs then node_at p (cs ! i) else None)"
| "node_at (i # p) (Text d) = None"

definition own_marker :: "string \<Rightarrow> path \<Rightarrow> node \<Rightarrow> (path \<times> string) list" where
  "own_marker a at doc =
     (case node_at at doc of
        Some (Element t as v ex cs) \<Rightarrow>
          (case map_of as a of
             Some key \<Rightarrow> [(at, key)]
           | None \<Rightarrow> [])
      | _ \<Rightarrow> [])"

definition descendant_markers :: "string \<Rightarrow> path \<Rightarrow> node \<Rightarrow> (path \<times> string) list" where
  "descendant_markers a at doc =
     (case node_at at doc of
        Some (Element t as v ex cs) \<Rightarrow>
          map (\<lambda>(p, key). (at @ p, key)) (select_children a 0 cs)
      | _ \<Rightarrow> [])"

definition translateElement :: "Config \<Rightarrow> LangJS \<Rightarrow> path \<Rightarrow> LangJS" where
  "translateElement cfg st at =
     (let st1 = foldl (\<lambda>s a. translate_each write_text s (own_marker a at (document s)))
                  st (attributes cfg)
      in foldl (\<lambda>s a. translate_each write_text s (descendant_markers a at (document s)))
           st1 (attributes cfg))"

subsection \<open>The stored preference\<close>

definition getStoredLanguage :: "Config \<Rightarrow> LangJS \<Rightarrow> string option" where
  "getStoredLanguage cfg st =
     (case localStorage st of
        Some items \<Rightarrow> items (persistKey cfg)
      | None \<Rightarrow> None)"

definition saveLanguage :: "Config \<Rightarrow> LangJS \<Rightarrow> string \<Rightarrow> LangJS" where
  "saveLanguage cfg st lang =
     (case localStorage st of
        Some items \<Rightarrow> st\<lparr>localStorage := Some (items(persistKey cfg \<mapsto> lang))\<rparr>
      | None \<Rightarrow> st)"

subsection \<open>\<^verbatim>\<open>detectLanguage\<close>\<close>

text \<open>
  \<^verbatim>\<open>navigator.language || navigator.userLanguage\<close>: the first operand when it is a
  non-empty string, the second otherwise; \<open>None\<close> is \<^verbatim>\<open>undefined\<close>, on which
  \<^verbatim>\<open>toLowerCase\<close> cannot be called.
\<close>

definition browser_locale :: "'a LangJS_scheme \<Rightarrow> string option" where
  "browser_locale st =
     (case navigator_language st of
        Some l \<Rightarrow> if l \<noteq> [] then Some l else navigator_userLanguage st
      | None \<Rightarrow> navigator_userLanguage st)"

text \<open>
  \<open>from_browser\<close> is steps 2 and 3 of the source; it is evaluated only where step 1
  does not return.
\<close>

definition detectLanguage :: "Config \<Rightarrow> LangJS \<Rightarrow> error + string" where
  "detectLanguage cfg st =
     (let from_browser =
            (if detectBrowser cfg then
               (case browser_locale st of
                  None \<Rightarrow> Inl TypeError
                | Some l \<Rightarrow>
                    (let browserLang = toLowerCase st l in
                     case find (\<lambda>lang. prefix lang browserLang) (available st) of
                       Some lang \<Rightarrow> Inr lang
                     | None \<Rightarrow> Inr (defaultLanguage cfg)))
             else Inr (defaultLanguage cfg))
      in case getStoredLanguage cfg st of
           Some savedLang \<Rightarrow>
             if savedLang \<noteq> [] \<and> savedLang \<in> set (available st) then Inr savedLang
             else from_browser
         | None \<Rightarrow> from_browser)"

subsection \<open>\<^verbatim>\<open>setLanguage\<close>\<close>

definition loadLanguageFile :: "Config \<Rightarrow> LangJS \<Rightarrow> string \<Rightarrow> jsval option \<times> LangJS" where
  "loadLanguageFile cfg st lang =
     (let url = languagePath cfg @ lang @ ''.json''
      in (fetch_json st url, st\<lparr>requests := requests st @ [url]\<rparr>))"

text \<open>\<^verbatim>\<open>document.documentElement.lang = lang\<close>, a reflected attribute of the root.\<close>

definition set_root_lang :: "string \<Rightarrow> node \<Rightarrow> node" where
  "set_root_lang lang doc = setAttribute ''lang'' lang doc"

text \<open>
  The \<^verbatim>\<open>try\<close> block ends either in the failure of \<^verbatim>\<open>loadLanguageFile\<close>, before anything
  is assigned, or, with everything assigned and the page translated, in a callback that
  throws; \<^verbatim>\<open>catch\<close> is the same for both. The callback is the caller's code: the model
  keeps only whether it returns.
\<close>

function setLanguage :: "Config \<Rightarrow> LangJS \<Rightarrow> string \<Rightarrow> bool \<times> LangJS" where
  "setLanguage cfg st lang0 =
     (let lang = (if lang0 \<in> set (available st) then lang0 else fallbackLanguage cfg) in
      case loadLanguageFile cfg st lang of
        (None, st1) \<Rightarrow>
          if lang \<noteq> fallbackLanguage cfg then setLanguage cfg st1 (fallbackLanguage cfg)
          else (False, st1)
      | (Some langData, st1) \<Rightarrow>
          (let st2 = st1\<lparr>languageDict := langData, currentLanguage := Some lang,
                         translationCache := Map.empty\<rparr>;
               st3 = saveLanguage cfg st2 lang;
               st4 = translatePage cfg st3;
               st5 = st4\<lparr>document := set_root_lang lang (document st4)\<rparr>
           in case onLanguageChange cfg of
                None \<Rightarrow> (True, st5)
              | Some callback \<Rightarrow>
                  (case callback lang of
                     Returns \<Rightarrow> (True, st5)
                   | Throws \<Rightarrow>
                       if lang \<noteq> fallbackLanguage cfg
                       then setLanguage cfg st5 (fallbackLanguage cfg)
                       else (False, st5))))"
  by pat_completeness auto
termination
  by (relation "measure (\<lambda>(cfg, st, lang). if lang = fallbackLanguage cfg then 0 else 1)")
     (auto split: if_splits)

subsection \<open>The remaining methods\<close>

definition getCurrentLanguage :: "LangJS \<Rightarrow> string option" where
  "getCurrentLanguage st = currentLanguage st"

text \<open>\<^verbatim>\<open>[...this.availableLanguages]\<close> allocates a new array with the same elements.\<close>

definition getAvailableLanguages :: "LangJS \<Rightarrow> nat \<times> LangJS" where
  "getAvailableLanguages st =
     (let r = next_ref st
      in (r, st\<lparr>arrays := (arrays st)(r \<mapsto> available st), next_ref := Suc r\<rparr>))"

definition isLanguageAvailable :: "LangJS \<Rightarrow> string \<Rightarrow> bool" where
  "isLanguageAvailable st lang \<longleftrightarrow> lang \<in> set (available st)"

definition observeDOMChanges :: "LangJS \<Rightarrow> LangJS" where
  "observeDOMChanges st =
     (let observer = next_ref st
      in st\<lparr>connected := insert observer (connected st),
             observers := observers st @ [observer],
             next_ref := Suc observer\<rparr>)"

definition destroy :: "LangJS \<Rightarrow> LangJS" where
  "destroy st =
     st\<lparr>connected := connected st - set (observers st),
        observers := [],
        translationCache := Map.empty\<rparr>"

subsection \<open>A concrete instance\<close>

text \<open>
  A stand-in for \<^verbatim>\<open>JSON.stringify\<close> on parameter objects whose names and values need
  no escaping, and an instance after the English dictionary was loaded into an empty
  page. The theorems below hold for every host; these are the inputs at which they are
  evaluated.
\<close>

definition quoted :: "string \<Rightarrow> string" where
  "quoted s = CHR 0x22 # s @ [CHR 0x22]"

fun joined :: "string list \<Rightarrow> string" where
  "joined [] = []"
| "joined [x] = x"
| "joined (x # y # ys) = x @ '','' @ joined (y # ys)"

definition simple_stringify :: "params \<Rightarrow> string" where
  "simple_stringify ps =
     ''{'' @ joined (map (\<lambda>(k, v). quoted k @ '':'' @ quoted v) ps) @ ''}''"

text \<open>A stand-in for \<^verbatim>\<open>toLowerCase\<close> on strings whose cased letters are ASCII.\<close>

definition ascii_toLowerCase :: "string \<Rightarrow> string" where
  "ascii_toLowerCase s =
     map (\<lambda>c. case map_of (zip ''ABCDEFGHIJKLMNOPQRSTUVWXYZ'' ''abcdefghijklmnopqrstuvwxyz'') c of
                 Some l \<Rightarrow> l
               | None \<Rightarrow> c) s"

definition example_config :: Config where
  "example_config =
     \<lparr>languagePath = ''./lang/'', defaultLanguage = ''en'', persistKey = ''langjs_language'',
      fallbackLanguage = ''en'', detectBrowser = True,
      attributes = [''translate'', ''data-translate''],
      placeholderAttribute = ''translate-placeholder'', titleAttribute = ''translate-title'',
      autoInit = True, onLanguageChange = None, debug = False\<rparr>"

definition english :: jsval where
  "english =
     JObj [(''nav'', JObj [(''home'', JStr ''Home'')]),
           (''form'', JObj [(''name'', JStr ''Name'')]),
           (''welcome'', JStr ''Hello {name}'')]"

definition example_instance :: LangJS where
  "example_instance =
     \<lparr>currentLanguage = Some ''en'', languageDict = english, availableLanguages = 0,
      observers = [], translationCache = Map.empty,
      arrays = [0 \<mapsto> [''en'', ''fr'']], next_ref = 1, connected = {},
      document = Element ''HTML'' [] [] [] [],
      localStorage = Some Map.empty, navigator_language = Some ''fr-FR'',
      navigator_userLanguage = None, fetch_json = Map.empty,
      JSON_stringify = simple_stringify,
      Function_toString = (\<lambda>n. ''function '' @ n @ ''() { [native code] }''),
      toLowerCase = ascii_toLowerCase, walks = 0, requests = []\<rparr>"

text \<open>The instance with the dictionary \<^verbatim>\<open>{nav: {home: "Home"}}\<close>.\<close>

definition nav_instance :: LangJS where
  "nav_instance =
     example_instance\<lparr>languageDict := JObj [(''nav'', JObj [(''home'', JStr ''Home'')])]\<rparr>"

definition form_page :: node where
  "form_page =
     Element ''HTML'' [] [] []
       [Element ''INPUT''
          [(''translate'', ''form.name''), (''translate-placeholder'', ''form.name'')] [] [] [],
        Element ''A'' [(''translate'', ''nav.home'')] [] [] [Text ''Accueil'']]"

text \<open>
  The instance while French is active, with a cache entry made under the French
  dictionary, and the English dictionary available from the source.
\<close>

definition french_instance :: LangJS where
  "french_instance =
     example_instance\<lparr>currentLanguage := Some ''fr'',
       languageDict := JObj [(''nav'', JObj [(''home'', JStr ''Accueil'')])],
       translationCache := [''nav.home_{}'' \<mapsto> JStr ''Accueil''],
       fetch_json := [''./lang/en.json'' \<mapsto> english],
       document := form_page\<rparr>"

text \<open>The instance after \<^verbatim>\<open>get("welcome", {name: "John"})\<close>.\<close>

definition welcomed :: LangJS where
  "welcomed =
     example_instance\<lparr>walks := 1,
       translationCache :=
         [''welcome_{'' @ quoted ''name'' @ '':'' @ quoted ''John'' @ ''}''
            \<mapsto> JStr ''Hello John'']\<rparr>"

text \<open>That instance once \<^verbatim>\<open>observeDOMChanges\<close> has registered an observer.\<close>

definition watched_instance :: LangJS where
  "watched_instance = observeDOMChanges welcomed"

text \<open>The French instance after \<^verbatim>\<open>setLanguage("en")\<close>.\<close>

definition english_page :: node where
  "english_page =
     Element ''HTML'' [(''lang'', ''en'')] [] []
       [Element ''INPUT''
          [(''translate'', ''form.name''), (''translate-placeholder'', ''form.name''),
           (''placeholder'', ''Name'')] ''Name'' [] [],
        Element ''A'' [(''translate'', ''nav.home'')] [] [] [Text ''Home'']]"

definition english_instance :: LangJS where
  "english_instance =
     french_instance\<lparr>currentLanguage := Some ''en'', languageDict := english,
       translationCache :=
         [''form.name_{}'' \<mapsto> JStr ''Name'', ''nav.home_{}'' \<mapsto> JStr ''Home''],
       localStorage := Some [''langjs_language'' \<mapsto> ''en''],
       document := english_page, walks := 2, requests := [''./lang/en.json'']\<rparr>"

text \<open>The instance after \<^verbatim>\<open>getAvailableLanguages()\<close>: the copy is the array 1.\<close>

definition copied_instance :: LangJS where
  "copied_instance =
     example_instance\<lparr>arrays := [0 \<mapsto> [''en'', ''fr''], 1 \<mapsto> [''en'', ''fr'']],
       next_ref := 2\<rparr>"

text \<open>
  The configuration with browser detection switched off, an instance whose second
  available tag is written in mixed case, and the instance on the page with the form.
\<close>

definition no_detect_config :: Config where
  "no_detect_config = example_config\<lparr>detectBrowser := False\<rparr>"

definition brazil_instance :: LangJS where
  "brazil_instance =
     example_instance\<lparr>arrays := [0 \<mapsto> [''en'', ''pt-BR'']],
       navigator_language := Some ''pt-BR''\<rparr>"

text \<open>
  An instance with the stored preference \<^verbatim>\<open>fr\<close> in a browser that reports no locale,
  and one in a browser that reports its locale in upper case.
\<close>

definition stored_instance :: LangJS where
  "stored_instance =
     example_instance\<lparr>localStorage := Some [''langjs_language'' \<mapsto> ''fr''],
       navigator_language := None\<rparr>"

definition canada_instance :: LangJS where
  "canada_instance = example_instance\<lparr>navigator_language := Some ''FR-CA''\<rparr>"

definition form_instance :: LangJS where
  "form_instance = example_instance\<lparr>document := form_page\<rparr>"

subsection \<open>Notions the properties are stated with\<close>

text \<open>
  A cache is sound when every entry is what resolving against the active dictionary
  gives, for every key and parameter object that lead to the entry's cache key.
\<close>

definition cache_sound :: "LangJS \<Rightarrow> bool" where
  "cache_sound st \<longleftrightarrow>
     (\<forall>key ps v. translationCache st (cacheKey st key ps) = Some v
        \<longrightarrow> resolve (languageDict st) key ps = Inr v)"

text \<open>
  A value was produced under a dictionary for a cache key when resolving some key and
  parameter object with that cache key against the dictionary gives the value. A cache
  is fresh when each of its entries was produced under the active dictionary.
\<close>

definition produced_under :: "jsval \<Rightarrow> (params \<Rightarrow> string) \<Rightarrow> string \<Rightarrow> jsval \<Rightarrow> bool" where
  "produced_under dict ser c v \<longleftrightarrow>
     (\<exists>key ps. c = key @ ''_'' @ ser ps \<and> resolve dict key ps = Inr v)"

definition cache_fresh :: "LangJS \<Rightarrow> bool" where
  "cache_fresh st \<longleftrightarrow>
     (\<forall>c v. translationCache st c = Some v
        \<longrightarrow> produced_under (languageDict st) (JSON_stringify st) c v)"

text \<open>A sequence of calls of \<^verbatim>\<open>get\<close>, and what each call answers.\<close>

fun get_many :: "LangJS \<Rightarrow> (string \<times> params) list \<Rightarrow> (error + jsval) list \<times> LangJS" where
  "get_many st [] = ([], st)"
| "get_many st ((key, ps) # calls) =
     (case get st key ps of
        (r, st1) \<Rightarrow> (case get_many st1 calls of (rs, st2) \<Rightarrow> (r # rs, st2)))"

text \<open>
  An answer comes from a dictionary when it is a value produced under that dictionary
  for the call's cache key, or the exception that resolving the call against that
  dictionary throws.
\<close>

definition answered_from ::
  "jsval \<Rightarrow> (params \<Rightarrow> string) \<Rightarrow> string \<times> params \<Rightarrow> error + jsval \<Rightarrow> bool" where
  "answered_from dict ser call r =
     (case r of
        Inr v \<Rightarrow> produced_under dict ser (fst call @ ''_'' @ ser (snd call)) v
      | Inl e \<Rightarrow> resolve dict (fst call) (snd call) = Inl e)"

text \<open>The active language's dictionary is the one the source holds for it.\<close>

definition installed :: "Config \<Rightarrow> LangJS \<Rightarrow> bool" where
  "installed cfg st \<longleftrightarrow>
     (case currentLanguage st of
        Some lang \<Rightarrow> fetch_json st (languagePath cfg @ lang @ ''.json'') = Some (languageDict st)
      | None \<Rightarrow> False)"

text \<open>
  What a translation pass leaves alone: everything but the cache, the walk counter and
  the page.
\<close>

definition pass_frame :: "LangJS \<Rightarrow> LangJS \<Rightarrow> bool" where
  "pass_frame st st' \<longleftrightarrow>
     (\<exists>c n d. st' = st\<lparr>translationCache := c, walks := n, document := d\<rparr>)"

text \<open>The \<^verbatim>\<open>try\<close> block of \<^verbatim>\<open>setLanguage\<close> from the arrival of a dictionary to the callback.\<close>

definition activated :: "Config \<Rightarrow> LangJS \<Rightarrow> string \<Rightarrow> jsval \<Rightarrow> LangJS" where
  "activated cfg st1 lang langData =
     (let st4 = translatePage cfg (saveLanguage cfg
                  (st1\<lparr>languageDict := langData, currentLanguage := Some lang,
                        translationCache := Map.empty\<rparr>) lang)
      in st4\<lparr>document := set_root_lang lang (document st4)\<rparr>)"

text \<open>The instance in another state of the arrays.\<close>

definition with_arrays :: "(nat \<rightharpoonup> string list) \<Rightarrow> nat \<Rightarrow> LangJS \<Rightarrow> LangJS" where
  "with_arrays A n st = st\<lparr>arrays := A, next_ref := n\<rparr>"

text \<open>
  The selection order in the words of the specification (section 4.4): the stored
  preference if it is a member of the available tags, else the first available tag that
  is a prefix of the locale string without regard to case, else the default. \<open>lc\<close> is
  the host's lower-casing.
\<close>

definition ci_prefix :: "(string \<Rightarrow> string) \<Rightarrow> string \<Rightarrow> string \<Rightarrow> bool" where
  "ci_prefix lc tag locale \<longleftrightarrow> prefix (lc tag) (lc locale)"

definition stored_member :: "string option \<Rightarrow> string list \<Rightarrow> string option" where
  "stored_member stored tags =
     (case stored of
        Some s \<Rightarrow> if s \<in> set tags then Some s else None
      | None \<Rightarrow> None)"

definition spec_selectInitial ::
  "(string \<Rightarrow> string) \<Rightarrow> string option \<Rightarrow> string \<Rightarrow> string list \<Rightarrow> string \<Rightarrow> string" where
  "spec_selectInitial lc stored locale tags dflt =
     (case stored_member stored tags of
        Some s \<Rightarrow> s
      | None \<Rightarrow>
          (case find (\<lambda>t. ci_prefix lc t locale) tags of
             Some t \<Rightarrow> t
           | None \<Rightarrow> dflt))"

definition lower_case_tags :: "(string \<Rightarrow> string) \<Rightarrow> string list \<Rightarrow> bool" where
  "lower_case_tags lc tags \<longleftrightarrow> list_all (\<lambda>t. t \<noteq> [] \<and> lc t = t) tags"

section \<open>Properties\<close>

lemmas instance_defs =
  example_instance_def example_config_def english_def simple_stringify_def quoted_def
  french_instance_def form_page_def

lemmas get_defs =
  cacheKey_def get_def resolve_def Let_def proto_property_def Object_prototype_methods_def
  word_char_def replacer_def

lemmas lang_defs = loadLanguageFile_def saveLanguage_def set_root_lang_def available_def

lemmas detect_defs =
  detectLanguage_def getStoredLanguage_def browser_locale_def ascii_toLowerCase_def available_def
  spec_selectInitial_def stored_member_def ci_prefix_def Let_def

lemmas page_defs =
  translatePage_def translateElement_def translate_each_def translate_one_def
  own_marker_def descendant_markers_def write_content_def write_text_def
  write_placeholder_def write_title_def write_aria_def is_text_control_def

subsection \<open>\<^verbatim>\<open>get\<close> and the cache\<close>

lemma resolve_no_params: "\<exists>v. resolve dict key [] = Inr v"
  by (auto simp: resolve_def Let_def split: option.splits jsval.splits)

lemma get_no_params: "\<exists>v. fst (get st key []) = Inr v"
  using resolve_no_params [of "languageDict st" key]
  by (auto simp: get_def Let_def split: option.splits sum.splits)

lemma get_resolve:
  "cache_sound st \<Longrightarrow> fst (get st key ps) = resolve (languageDict st) key ps"
  by (auto simp: get_def cache_sound_def Let_def split: option.splits sum.splits)

lemma get_caches:
  "fst (get st key ps) = Inr v \<Longrightarrow>
   translationCache (snd (get st key ps)) (cacheKey st key ps) = Some v"
  by (auto simp: get_def Let_def split: option.splits sum.splits)

lemma cache_sound_empty: "translationCache st = Map.empty \<Longrightarrow> cache_sound st"
  by (simp add: cache_sound_def)

lemma get_again:
  "get st key ps = (Inr v, st1) \<Longrightarrow> get st1 key ps = (Inr v, st1)"
  by (auto simp: get_def cacheKey_def Let_def split: option.splits sum.splits)

lemma get_same_outcome: "fst (get (snd (get st key ps)) key ps) = fst (get st key ps)"
  by (auto simp: get_def cacheKey_def Let_def split: option.splits sum.splits)

text \<open>
  Where the host's serialisation keeps cache keys apart, a fresh cache is sound: the
  entry under a cache key can only have come from the key and parameters asked for.
\<close>

lemma cache_fresh_sound:
  assumes "cache_fresh st"
    and "\<And>key ps key' ps'. cacheKey st key ps = cacheKey st key' ps' \<Longrightarrow> key = key' \<and> ps = ps'"
  shows "cache_sound st"
  unfolding cache_sound_def
proof (intro allI impI)
  fix key ps v
  assume "translationCache st (cacheKey st key ps) = Some v"
  then obtain key' ps' where "cacheKey st key ps = cacheKey st key' ps'"
    and r: "resolve (languageDict st) key' ps' = Inr v"
    using assms(1) unfolding cache_fresh_def produced_under_def cacheKey_def by blast
  with assms(2) have "key = key'" and "ps = ps'" by blast+
  with r show "resolve (languageDict st) key ps = Inr v" by simp
qed

subsection \<open>What the translation passes leave alone\<close>

lemma pass_frame_refl: "pass_frame st st"
  unfolding pass_frame_def
  by (rule exI [of _ "translationCache st"], rule exI [of _ "walks st"],
      rule exI [of _ "document st"]) simp

lemma pass_frame_trans:
  assumes "pass_frame a b" and "pass_frame b c"
  shows "pass_frame a c"
proof -
  obtain c1 n1 d1 where b: "b = a\<lparr>translationCache := c1, walks := n1, document := d1\<rparr>"
    using assms(1) unfolding pass_frame_def by blast
  obtain c2 n2 d2 where c: "c = b\<lparr>translationCache := c2, walks := n2, document := d2\<rparr>"
    using assms(2) unfolding pass_frame_def by blast
  have "c = a\<lparr>translationCache := c2, walks := n2, document := d2\<rparr>"
    by (simp add: b c)
  then show ?thesis unfolding pass_frame_def by blast
qed

lemma pass_frame_document:
  assumes "pass_frame a b"
  shows "pass_frame a (b\<lparr>document := d\<rparr>)"
proof -
  obtain c1 n1 d1 where b: "b = a\<lparr>translationCache := c1, walks := n1, document := d1\<rparr>"
    using assms unfolding pass_frame_def by blast
  have "b\<lparr>document := d\<rparr> = a\<lparr>translationCache := c1, walks := n1, document := d\<rparr>"
    by (simp add: b)
  then show ?thesis unfolding pass_frame_def by blast
qed

lemma pass_frame_fields:
  assumes "pass_frame a b"
  shows "languageDict b = languageDict a" and "currentLanguage b = currentLanguage a"
    and "fetch_json b = fetch_json a" and "JSON_stringify b = JSON_stringify a"
    and "requests b = requests a" and "available b = available a"
proof -
  obtain c n d where b: "b = a\<lparr>translationCache := c, walks := n, document := d\<rparr>"
    using assms unfolding pass_frame_def by blast
  show "languageDict b = languageDict a" and "currentLanguage b = currentLanguage a"
    and "fetch_json b = fetch_json a" and "JSON_stringify b = JSON_stringify a"
    and "requests b = requests a" and "available b = available a"
    by (simp_all add: b available_def)
qed

lemma foldl_preserves:
  assumes "P s" and "\<And>s x. P s \<Longrightarrow> P (f s x)"
  shows "P (foldl f s xs)"
  using assms(1) by (induction xs arbitrary: s) (simp_all add: assms(2))

lemma get_frame: "pass_frame st (snd (get st key ps))"
proof (cases "translationCache st (cacheKey st key ps)")
  case None
  show ?thesis
  proof (cases "resolve (languageDict st) key ps")
    case (Inl e)
    with None have "snd (get st key ps) = st\<lparr>walks := Suc (walks st)\<rparr>"
      by (simp add: get_def)
    then show ?thesis
      unfolding pass_frame_def
      by (intro exI [of _ "translationCache st"] exI [of _ "Suc (walks st)"]
          exI [of _ "document st"]) simp
  next
    case (Inr v)
    with None have "snd (get st key ps) =
        st\<lparr>walks := Suc (walks st),
           translationCache := (translationCache st)(cacheKey st key ps \<mapsto> v)\<rparr>"
      by (simp add: get_def)
    then show ?thesis
      unfolding pass_frame_def
      by (intro exI [of _ "(translationCache st)(cacheKey st key ps \<mapsto> v)"]
          exI [of _ "Suc (walks st)"] exI [of _ "document st"]) simp
  qed
next
  case (Some v)
  then have "snd (get st key ps) = st" by (simp add: get_def)
  then show ?thesis by (simp add: pass_frame_refl)
qed

lemma translate_one_frame: "pass_frame st (translate_one w st x)"
proof -
  obtain p key where x: "x = (p, key)" by (cases x)
  obtain r st' where g: "get st key [] = (r, st')" by (cases "get st key []")
  have f: "pass_frame st st'" using get_frame [of st key "[]"] g by simp
  show ?thesis
    using x g f by (cases r) (auto simp: translate_one_def pass_frame_refl pass_frame_document)
qed

lemma translate_each_frame: "pass_frame st (translate_each w st xs)"
  unfolding translate_each_def
  by (rule foldl_preserves [where P = "pass_frame st"])
     (auto intro: pass_frame_refl pass_frame_trans translate_one_frame)

lemma translatePage_frame: "pass_frame st (translatePage cfg st)"
proof -
  have 1: "pass_frame st
      (foldl (\<lambda>s a. translate_each write_content s (select_all a (document s)))
         st (attributes cfg))"
    by (rule foldl_preserves [where P = "pass_frame st"])
       (auto intro: pass_frame_refl pass_frame_trans translate_each_frame)
  show ?thesis
    unfolding translatePage_def Let_def
    by (rule pass_frame_trans [OF pass_frame_trans [OF pass_frame_trans [OF 1
          translate_each_frame] translate_each_frame] translate_each_frame])
qed

lemma get_many_snd:
  "snd (get_many st ((key, ps) # calls)) = snd (get_many (snd (get st key ps)) calls)"
  by (simp split: prod.splits)

lemma get_many_fst:
  "fst (get_many st ((key, ps) # calls)) =
     fst (get st key ps) # fst (get_many (snd (get st key ps)) calls)"
  by (simp split: prod.splits)

lemma get_many_frame: "pass_frame st (snd (get_many st calls))"
proof (induction calls arbitrary: st)
  case Nil
  show ?case by (simp add: pass_frame_refl)
next
  case (Cons call calls)
  obtain key ps where c: "call = (key, ps)" by (cases call)
  have "pass_frame st (snd (get_many (snd (get st key ps)) calls))"
    using pass_frame_trans [OF get_frame Cons.IH] .
  then show ?case unfolding c get_many_snd .
qed

text \<open>
  C1 (as amended). When the walk succeeds on every segment and ends on a value that is
  not a string (a group), \<^verbatim>\<open>get\<close> does not treat this as a miss: with a sound cache
  it returns the group itself, not interpolated, and the group is what the cache holds
  for the call afterwards.
\<close>

theorem C1_group_is_returned:
  assumes "cache_sound st"
    and "walk (languageDict st) (split_dot key) = Some v"
    and "\<not> is_string v"
  shows "fst (get st key ps) = Inr v
    \<and> translationCache (snd (get st key ps)) (cacheKey st key ps) = Some v"
proof -
  have "resolve (languageDict st) key ps = Inr v"
    using assms(2,3) by (cases v) (simp_all add: resolve_def)
  then have "fst (get st key ps) = Inr v"
    using assms(1) by (simp add: get_resolve)
  then show ?thesis by (simp add: get_caches)
qed

theorem C1_group_is_returned_witness:
  "cache_sound nav_instance
   \<and> walk (languageDict nav_instance) (split_dot ''nav'') = Some (JObj [(''home'', JStr ''Home'')])
   \<and> \<not> is_string (JObj [(''home'', JStr ''Home'')])
   \<and> fst (get nav_instance ''nav'' []) = Inr (JObj [(''home'', JStr ''Home'')])
   \<and> translationCache (snd (get nav_instance ''nav'' []))
        (cacheKey nav_instance ''nav'' []) = Some (JObj [(''home'', JStr ''Home'')])"
proof -
  have c: "cache_sound nav_instance"
    by (rule cache_sound_empty) (simp add: nav_instance_def example_instance_def)
  have w: "walk (languageDict nav_instance) (split_dot ''nav'')
      = Some (JObj [(''home'', JStr ''Home'')])"
    by (simp add: nav_instance_def)
  have n: "\<not> is_string (JObj [(''home'', JStr ''Home'')])" by simp
  show ?thesis
    using c w n C1_group_is_returned [OF c w n, of "[]"] by simp
qed

text \<open>
  C1 as stated fails: against \<^verbatim>\<open>{nav: {home: "Home"}}\<close> the walk for \<^verbatim>\<open>"nav"\<close>
  succeeds and ends on the group, and \<^verbatim>\<open>get("nav")\<close> returns the group, not the
  string \<^verbatim>\<open>"nav"\<close>.
\<close>

theorem C1_counterexample:
  "languageDict nav_instance = JObj [(''nav'', JObj [(''home'', JStr ''Home'')])]
   \<and> walk (languageDict nav_instance) (split_dot ''nav'') = Some (JObj [(''home'', JStr ''Home'')])
   \<and> fst (get nav_instance ''nav'' []) = Inr (JObj [(''home'', JStr ''Home'')])
   \<and> fst (get nav_instance ''nav'' []) \<noteq> Inr (JStr ''nav'')"
  by (simp add: nav_instance_def instance_defs get_defs)

subsection \<open>A key that is not in the dictionary\<close>

lemma interpolate_no_brace: "CHR ''{'' \<notin> set s \<Longrightarrow> interpolate s ps = Inr s"
  by (induction s) (auto simp: Let_def)

text \<open>
  Where the walk stops, \<^verbatim>\<open>get\<close> returns the key when no parameters are given, and
  when the key holds no opening brace.
\<close>

lemma get_miss_plain:
  assumes "cache_sound st" and "walk (languageDict st) (split_dot key) = None"
    and "ps = [] \<or> CHR ''{'' \<notin> set key"
  shows "fst (get st key ps) = Inr (JStr key)"
  using assms by (auto simp: get_resolve resolve_def interpolate_no_brace)

text \<open>
  C6 (the code departs from the claim). The walk for \<^verbatim>\<open>"hello.{name}"\<close> stops at its
  first segment, the source assigns \<^verbatim>\<open>value = key\<close> ("Return key as fallback"), and
  the key then goes through \<^verbatim>\<open>interpolate\<close> like a translation: with the parameter
  \<^verbatim>\<open>{name: "John"}\<close> the call returns \<^verbatim>\<open>"hello.John"\<close>, not the key.
\<close>

theorem C6_missing_key_is_interpolated:
  "walk (languageDict example_instance) (split_dot ''hello.{name}'') = None
   \<and> fst (get example_instance ''hello.{name}'' [(''name'', ''John'')])
       = Inr (JStr ''hello.John'')"
  by (simp add: instance_defs get_defs)

subsection \<open>\<^verbatim>\<open>interpolate\<close>\<close>

lemma not_word_close: "\<not> word_char CHR ''}''"
  by (simp add: word_char_def)

text \<open>
  A token whose name is a parameter is replaced by the parameter's value, any other token
  stays, and the scan goes on behind the token: the value is not scanned. This needs a
  parameter object without a property \<^verbatim>\<open>hasOwnProperty\<close> of its own.
\<close>

lemma interpolate_token:
  assumes "map_of ps ''hasOwnProperty'' = None"
    and "name \<noteq> []" and "list_all word_char name"
  shows "interpolate (''{'' @ name @ ''}'' @ rest) ps =
     map_sum id ((@) (case map_of ps name of Some v \<Rightarrow> v | None \<Rightarrow> ''{'' @ name @ ''}''))
       (interpolate rest ps)"
proof -
  have t: "takeWhile word_char (name @ CHR ''}'' # rest) = name"
    using assms(3) not_word_close by (simp add: list_all_iff)
  have d: "dropWhile word_char (name @ CHR ''}'' # rest) = CHR ''}'' # rest"
    using assms(3) not_word_close by (simp add: list_all_iff)
  show ?thesis
    using assms(1,2) t d
    by (cases "interpolate rest ps") (auto simp: Let_def replacer_def split: option.splits)
qed

lemma interpolate_literal:
  assumes "c \<noteq> CHR ''{''"
  shows "interpolate (c # cs) ps = map_sum id ((#) c) (interpolate cs ps)"
  using assms by (cases "interpolate cs ps") (simp_all add: Let_def)

lemma interpolate_shadowed:
  assumes "map_of ps ''hasOwnProperty'' \<noteq> None"
    and "name \<noteq> []" and "list_all word_char name"
  shows "interpolate (''{'' @ name @ ''}'' @ rest) ps = Inl TypeError"
proof -
  have t: "takeWhile word_char (name @ CHR ''}'' # rest) = name"
    using assms(3) not_word_close by (simp add: list_all_iff)
  have d: "dropWhile word_char (name @ CHR ''}'' # rest) = CHR ''}'' # rest"
    using assms(3) not_word_close by (simp add: list_all_iff)
  show ?thesis
    using assms(1,2) t d by (auto simp: Let_def replacer_def)
qed

lemma interpolate_present: "interpolate ''Hello {name}'' [(''name'', ''John'')] = Inr ''Hello John''"
  by (simp add: get_defs)

lemma interpolate_absent: "interpolate ''Hi {missing}'' [] = Inr ''Hi {missing}''"
  by (simp add: get_defs)

lemma interpolate_not_nested:
  "interpolate ''{a}{b}'' [(''a'', ''{b}''), (''b'', ''{a}'')] = Inr ''{b}{a}''"
  by (simp add: get_defs)

text \<open>
  C7 (the code departs from the claim). The callback asks \<^verbatim>\<open>params.hasOwnProperty(key)\<close>
  on the parameter object itself. For the parameter object
  \<^verbatim>\<open>{name: "John", hasOwnProperty: "x"}\<close> that property is the string \<^verbatim>\<open>"x"\<close>, the
  call throws, and \<^verbatim>\<open>{name}\<close> is not replaced although \<^verbatim>\<open>name\<close> is present.
\<close>

theorem C7_own_hasOwnProperty_throws:
  "interpolate ''Hello {name}'' [(''name'', ''John''), (''hasOwnProperty'', ''x'')]
     = Inl TypeError"
  by (simp add: get_defs)

subsection \<open>Asking twice\<close>

lemma get_keeps_entry:
  "translationCache st c = Some v \<Longrightarrow> translationCache (snd (get st key ps)) c = Some v"
  by (auto simp: get_def Let_def split: option.splits sum.splits)

lemma get_many_keeps_entry:
  "translationCache st c = Some v \<Longrightarrow> translationCache (snd (get_many st calls)) c = Some v"
proof (induction calls arbitrary: st)
  case Nil
  then show ?case by simp
next
  case (Cons call calls)
  obtain key ps where c: "call = (key, ps)" by (cases call)
  show ?case
    unfolding c get_many_snd
    by (rule Cons.IH) (rule get_keeps_entry [OF Cons.prems])
qed

lemma get_hit:
  "translationCache st (cacheKey st key ps) = Some v \<Longrightarrow> get st key ps = (Inr v, st)"
  by (simp add: get_def)

lemma pass_frame_cacheKey: "pass_frame a b \<Longrightarrow> cacheKey b key ps = cacheKey a key ps"
  by (simp add: cacheKey_def pass_frame_fields(4))

lemma get_later:
  assumes "get st key ps = (Inr v, st1)"
  shows "get (snd (get_many st1 calls)) key ps = (Inr v, snd (get_many st1 calls))"
proof -
  have f: "pass_frame st st1" using get_frame [of st key ps] assms by simp
  have "translationCache st1 (cacheKey st key ps) = Some v"
    using get_caches [of st key ps v] assms by simp
  then have "translationCache (snd (get_many st1 calls)) (cacheKey st key ps) = Some v"
    by (rule get_many_keeps_entry)
  moreover have "cacheKey (snd (get_many st1 calls)) key ps = cacheKey st key ps"
    using pass_frame_cacheKey [OF pass_frame_trans [OF f get_many_frame]] .
  ultimately show ?thesis by (simp add: get_hit)
qed

text \<open>
  Two calls in a row with the same key and parameters have the same outcome. Whenever
  the first call returned a value, a later call with the same key and parameters, with
  any number of other calls of \<^verbatim>\<open>get\<close> in between, is answered from the cache: it
  returns that value and leaves the instance as it finds it, the count of dictionary
  walks included.
\<close>

lemma get_served_from_cache:
  "fst (get (snd (get st key ps)) key ps) = fst (get st key ps)
   \<and> (\<forall>v st1 calls. get st key ps = (Inr v, st1) \<longrightarrow>
         get (snd (get_many st1 calls)) key ps = (Inr v, snd (get_many st1 calls)))"
  using get_same_outcome get_later by blast

lemma get_served_from_cache_example:
  "get example_instance ''welcome'' [(''name'', ''John'')] = (Inr (JStr ''Hello John''), welcomed)
   \<and> get welcomed ''welcome'' [(''name'', ''John'')] = (Inr (JStr ''Hello John''), welcomed)
   \<and> walks example_instance = 0 \<and> walks welcomed = 1"
proof -
  have g: "get example_instance ''welcome'' [(''name'', ''John'')]
      = (Inr (JStr ''Hello John''), welcomed)"
    by (simp add: instance_defs get_defs welcomed_def)
  have "get (snd (get_many welcomed [])) ''welcome'' [(''name'', ''John'')]
      = (Inr (JStr ''Hello John''), snd (get_many welcomed []))"
    using g get_later by blast
  then show ?thesis using g by (simp add: welcomed_def example_instance_def)
qed

text \<open>
  C8 (the code departs from the claim). With the parameter object
  \<^verbatim>\<open>{hasOwnProperty: "x"}\<close> the call \<^verbatim>\<open>get("welcome", params)\<close> walks the dictionary
  and throws in \<^verbatim>\<open>interpolate\<close> before the cache is written; the same call right after
  it is not answered from the cache: it walks the dictionary a second time and throws
  again.
\<close>

theorem C8_throwing_call_is_not_cached:
  "walks example_instance = 0
   \<and> get example_instance ''welcome'' [(''hasOwnProperty'', ''x'')]
     = (Inl TypeError, example_instance\<lparr>walks := 1\<rparr>)
   \<and> get (example_instance\<lparr>walks := 1\<rparr>) ''welcome'' [(''hasOwnProperty'', ''x'')]
     = (Inl TypeError, example_instance\<lparr>walks := 2\<rparr>)"
  by (simp add: instance_defs get_defs)

subsection \<open>\<^verbatim>\<open>destroy\<close>\<close>

lemma split_dot_plain: "CHR ''.'' \<notin> set key \<Longrightarrow> split_dot key = [key]"
  by (induction key) auto

lemma get_after_destroy: "fst (get (destroy st) key ps) = resolve (languageDict st) key ps"
  by (auto simp: destroy_def get_def Let_def split: sum.splits)

text \<open>
  C9. \<^verbatim>\<open>destroy\<close> leaves none of the instance's observers connected, empties the list
  of observers and the cache, and keeps the active language and its dictionary. A call
  of \<^verbatim>\<open>get\<close> on the destroyed instance is resolved against that dictionary: where the
  walk for the key ends on a string of the dictionary, the call returns that string
  (interpolated when parameters are given), in particular the string the dictionary
  holds under a key without a dot; and with a sound cache the call answers what it
  answered before \<^verbatim>\<open>destroy\<close>.
\<close>

theorem C9_destroy_keeps_dictionary:
  "connected (destroy st) \<inter> set (observers st) = {}
   \<and> observers (destroy st) = []
   \<and> translationCache (destroy st) = Map.empty
   \<and> currentLanguage (destroy st) = currentLanguage st
   \<and> languageDict (destroy st) = languageDict st
   \<and> fst (get (destroy st) key ps) = resolve (languageDict st) key ps
   \<and> (\<forall>s. walk (languageDict st) (split_dot key) = Some (JStr s) \<longrightarrow>
         fst (get (destroy st) key ps) =
           (if ps = [] then Inr (JStr s) else map_sum id JStr (interpolate s ps)))
   \<and> (\<forall>kvs s. languageDict st = JObj kvs \<and> map_of kvs key = Some (JStr s)
           \<and> CHR ''.'' \<notin> set key \<longrightarrow>
         fst (get (destroy st) key []) = Inr (JStr s))
   \<and> (cache_sound st \<longrightarrow> fst (get (destroy st) key ps) = fst (get st key ps))"
proof -
  have 1: "connected (destroy st) \<inter> set (observers st) = {}"
    "observers (destroy st) = []" "translationCache (destroy st) = Map.empty"
    "currentLanguage (destroy st) = currentLanguage st"
    "languageDict (destroy st) = languageDict st"
    by (auto simp: destroy_def)
  have 2: "\<forall>s. walk (languageDict st) (split_dot key) = Some (JStr s) \<longrightarrow>
         fst (get (destroy st) key ps) =
           (if ps = [] then Inr (JStr s) else map_sum id JStr (interpolate s ps))"
    by (simp add: get_after_destroy resolve_def)
  have 3: "\<forall>kvs s. languageDict st = JObj kvs \<and> map_of kvs key = Some (JStr s)
           \<and> CHR ''.'' \<notin> set key \<longrightarrow>
         fst (get (destroy st) key []) = Inr (JStr s)"
    by (simp add: get_after_destroy resolve_def split_dot_plain)
  have 4: "cache_sound st \<longrightarrow> fst (get (destroy st) key ps) = fst (get st key ps)"
    by (simp add: get_after_destroy get_resolve)
  show ?thesis using 1 2 3 4 get_after_destroy by blast
qed

theorem C9_destroy_keeps_dictionary_witness:
  "observers watched_instance = [1]
   \<and> connected watched_instance = {1}
   \<and> translationCache watched_instance (cacheKey watched_instance ''welcome'' [(''name'', ''John'')])
        = Some (JStr ''Hello John'')
   \<and> connected (destroy watched_instance) = {}
   \<and> observers (destroy watched_instance) = []
   \<and> translationCache (destroy watched_instance) = Map.empty
   \<and> currentLanguage (destroy watched_instance) = Some ''en''
   \<and> languageDict (destroy watched_instance) = english
   \<and> walk (languageDict watched_instance) (split_dot ''nav.home'') = Some (JStr ''Home'')
   \<and> fst (get (destroy watched_instance) ''nav.home'' []) = Inr (JStr ''Home'')
   \<and> fst (get (destroy watched_instance) ''welcome'' [(''name'', ''John'')])
        = Inr (JStr ''Hello John'')"
proof -
  have w: "watched_instance = welcomed\<lparr>connected := {1}, observers := [1], next_ref := 2\<rparr>"
    by (simp add: watched_instance_def observeDOMChanges_def welcomed_def example_instance_def
        Let_def)
  have a: "observers watched_instance = [1]" "connected watched_instance = {1}"
    "currentLanguage watched_instance = Some ''en''" "languageDict watched_instance = english"
    by (simp_all add: w welcomed_def example_instance_def)
  have c: "translationCache watched_instance
      (cacheKey watched_instance ''welcome'' [(''name'', ''John'')]) = Some (JStr ''Hello John'')"
    by (simp add: w welcomed_def instance_defs get_defs)
  have k1: "walk (languageDict watched_instance) (split_dot ''nav.home'') = Some (JStr ''Home'')"
    by (simp add: a english_def)
  have k2: "walk (languageDict watched_instance) (split_dot ''welcome'')
      = Some (JStr ''Hello {name}'')"
    by (simp add: a english_def)
  have i: "map_sum id JStr (interpolate ''Hello {name}'' [(''name'', ''John'')])
      = Inr (JStr ''Hello John'')"
    unfolding interpolate_present by simp
  have "fst (get (destroy watched_instance) ''nav.home'' []) =
      (if ([] :: params) = [] then Inr (JStr ''Home'')
       else map_sum id JStr (interpolate ''Home'' []))"
    using C9_destroy_keeps_dictionary [of watched_instance "''nav.home''" "[]"] k1 by blast
  then have t1: "fst (get (destroy watched_instance) ''nav.home'' []) = Inr (JStr ''Home'')"
    by (simp only: simp_thms if_True)
  have "fst (get (destroy watched_instance) ''welcome'' [(''name'', ''John'')]) =
      (if [(''name'', ''John'')] = [] then Inr (JStr ''Hello {name}'')
       else map_sum id JStr (interpolate ''Hello {name}'' [(''name'', ''John'')]))"
    using C9_destroy_keeps_dictionary [of watched_instance "''welcome''" "[(''name'', ''John'')]"]
      k2 by blast
  then have t2: "fst (get (destroy watched_instance) ''welcome'' [(''name'', ''John'')])
      = Inr (JStr ''Hello John'')"
    by (simp only: i list.distinct simp_thms if_False)
  have "connected (destroy watched_instance) \<inter> set (observers watched_instance) = {}"
    and d2: "observers (destroy watched_instance) = []"
    and d3: "translationCache (destroy watched_instance) = Map.empty"
    and "currentLanguage (destroy watched_instance) = currentLanguage watched_instance"
    and "languageDict (destroy watched_instance) = languageDict watched_instance"
    using C9_destroy_keeps_dictionary [of watched_instance "''nav.home''" "[]"] by blast+
  then have d: "connected (destroy watched_instance) \<inter> {1} = {}"
    "currentLanguage (destroy watched_instance) = Some ''en''"
    "languageDict (destroy watched_instance) = english"
    by (simp_all add: a)
  have sub: "connected (destroy watched_instance) \<subseteq> {1}"
    by (simp add: destroy_def a)
  have d1: "connected (destroy watched_instance) = {}"
    using d(1) sub by blast
  show ?thesis using a(1,2) c d1 d2 d3 d(2,3) k1 t1 t2 by blast
qed

subsection \<open>\<^verbatim>\<open>setLanguage\<close> where the dictionary cannot be loaded\<close>

lemma activated_requests: "requests (activated cfg st1 lang d) = requests st1"
proof -
  let ?st3 = "saveLanguage cfg (st1\<lparr>languageDict := d, currentLanguage := Some lang,
                        translationCache := Map.empty\<rparr>) lang"
  have "requests ?st3 = requests st1"
    by (simp add: saveLanguage_def split: option.splits)
  then show ?thesis
    using pass_frame_fields(5) [OF translatePage_frame [of ?st3 cfg]]
    by (simp add: activated_def Let_def)
qed

text \<open>
  Asked for the fallback itself, \<^verbatim>\<open>setLanguage\<close> makes one request and does not call
  itself.
\<close>

lemma setLanguage_fallback_requests:
  "requests (snd (setLanguage cfg st (fallbackLanguage cfg))) =
     requests st @ [languagePath cfg @ fallbackLanguage cfg @ ''.json'']"
proof -
  let ?url = "languagePath cfg @ fallbackLanguage cfg @ ''.json''"
  let ?st1 = "st\<lparr>requests := requests st @ [?url]\<rparr>"
  show ?thesis
  proof (cases "fetch_json st ?url")
    case None
    then show ?thesis
      by (subst setLanguage.simps) (simp add: loadLanguageFile_def Let_def)
  next
    case (Some d)
    have r: "requests (activated cfg ?st1 (fallbackLanguage cfg) d) = requests st @ [?url]"
      by (simp add: activated_requests)
    show ?thesis
    proof (cases "onLanguageChange cfg")
      case None
      with Some r show ?thesis
        by (subst setLanguage.simps) (simp add: loadLanguageFile_def Let_def activated_def)
    next
      case cb: (Some callback)
      with Some r show ?thesis
        by (subst setLanguage.simps)
           (cases "callback (fallbackLanguage cfg)";
            simp add: loadLanguageFile_def Let_def activated_def)
    qed
  qed
qed

text \<open>
  Every call makes one request or two: for the language asked for (the fallback in its
  place when it is not available), and then at most once for the fallback.
\<close>

lemma setLanguage_requests:
  assumes "lang = (if lang0 \<in> set (available st) then lang0 else fallbackLanguage cfg)"
  shows "requests (snd (setLanguage cfg st lang0))
      = requests st @ [languagePath cfg @ lang @ ''.json'']
    \<or> requests (snd (setLanguage cfg st lang0)) =
        requests st @ [languagePath cfg @ lang @ ''.json'',
                       languagePath cfg @ fallbackLanguage cfg @ ''.json'']"
proof -
  let ?url = "languagePath cfg @ lang @ ''.json''"
  define st1 where "st1 = st\<lparr>requests := requests st @ [?url]\<rparr>"
  have load: "loadLanguageFile cfg st lang = (fetch_json st ?url, st1)"
    by (simp add: loadLanguageFile_def st1_def Let_def)
  show ?thesis
  proof (cases "fetch_json st ?url")
    case None
    have "setLanguage cfg st lang0 =
        (if lang \<noteq> fallbackLanguage cfg then setLanguage cfg st1 (fallbackLanguage cfg)
         else (False, st1))"
      by (subst setLanguage.simps) (simp add: assms [symmetric] load None)
    then show ?thesis
      using setLanguage_fallback_requests [of cfg st1] by (simp add: st1_def)
  next
    case (Some d)
    define st5 where "st5 = activated cfg st1 lang d"
    have r5: "requests st5 = requests st @ [?url]"
      by (simp add: st5_def activated_requests st1_def)
    note unf = assms [symmetric] load Some st5_def activated_def Let_def
    show ?thesis
    proof (cases "onLanguageChange cfg")
      case None
      then have "setLanguage cfg st lang0 = (True, st5)"
        by (subst setLanguage.simps) (simp add: unf)
      with r5 show ?thesis by simp
    next
      case cb: (Some callback)
      show ?thesis
      proof (cases "callback lang")
        case Returns
        with cb have "setLanguage cfg st lang0 = (True, st5)"
          by (subst setLanguage.simps) (simp add: unf)
        with r5 show ?thesis by simp
      next
        case Throws
        with cb have "setLanguage cfg st lang0 =
            (if lang \<noteq> fallbackLanguage cfg then setLanguage cfg st5 (fallbackLanguage cfg)
             else (False, st5))"
          by (subst setLanguage.simps) (simp add: unf)
        then show ?thesis
          using setLanguage_fallback_requests [of cfg st5] r5 by simp
      qed
    qed
  qed
qed

lemma setLanguage_substitutes:
  assumes "lang \<notin> set (available st)"
  shows "setLanguage cfg st lang = setLanguage cfg st (fallbackLanguage cfg)"
proof -
  have "(if lang \<in> set (available st) then lang else fallbackLanguage cfg) =
        (if fallbackLanguage cfg \<in> set (available st) then fallbackLanguage cfg
         else fallbackLanguage cfg)"
    using assms by simp
  then show ?thesis
    by (subst setLanguage.simps, subst (2) setLanguage.simps) (simp only:)
qed

text \<open>
  C3. For a tag that is not available, \<^verbatim>\<open>setLanguage\<close> does what it does for the
  fallback language. If the retrieval of the fallback's dictionary fails, the call
  returns \<^verbatim>\<open>false\<close> after this one request, and nothing of the instance has changed:
  the active language, the dictionary and the cache are what they were.
\<close>

theorem C3_unavailable_and_fallback_fails:
  assumes "lang \<notin> set (available st)"
  shows "setLanguage cfg st lang = setLanguage cfg st (fallbackLanguage cfg)
    \<and> (fetch_json st (languagePath cfg @ fallbackLanguage cfg @ ''.json'') = None \<longrightarrow>
         setLanguage cfg st lang =
           (False,
            st\<lparr>requests :=
                 requests st @ [languagePath cfg @ fallbackLanguage cfg @ ''.json'']\<rparr>))"
proof
  show "setLanguage cfg st lang = setLanguage cfg st (fallbackLanguage cfg)"
    using assms by (rule setLanguage_substitutes)
  show "fetch_json st (languagePath cfg @ fallbackLanguage cfg @ ''.json'') = None \<longrightarrow>
         setLanguage cfg st lang =
           (False,
            st\<lparr>requests :=
                 requests st @ [languagePath cfg @ fallbackLanguage cfg @ ''.json'']\<rparr>)"
    using assms by (subst setLanguage.simps) (simp add: loadLanguageFile_def Let_def)
qed

theorem C3_unavailable_and_fallback_fails_witness:
  "''de'' \<notin> set (available example_instance)
   \<and> fetch_json example_instance
        (languagePath example_config @ fallbackLanguage example_config @ ''.json'') = None
   \<and> setLanguage example_config example_instance ''de'' =
        setLanguage example_config example_instance (fallbackLanguage example_config)
   \<and> setLanguage example_config example_instance ''de'' =
        (False, example_instance\<lparr>requests := [''./lang/en.json'']\<rparr>)"
proof -
  have a: "''de'' \<notin> set (available example_instance)"
    by (simp add: instance_defs available_def)
  have b: "fetch_json example_instance
      (languagePath example_config @ fallbackLanguage example_config @ ''.json'') = None"
    by (simp add: instance_defs)
  have r: "requests example_instance
        @ [languagePath example_config @ fallbackLanguage example_config @ ''.json'']
      = [''./lang/en.json'']"
    by (simp add: instance_defs)
  show ?thesis
    using a b C3_unavailable_and_fallback_fails [OF a, of example_config] unfolding r by blast
qed

subsection \<open>The cache after an activation\<close>

lemma cache_fresh_get: "cache_fresh st \<Longrightarrow> cache_fresh (snd (get st key ps))"
  by (auto simp: get_def cacheKey_def Let_def cache_fresh_def produced_under_def
      split: option.splits sum.splits)

lemma get_answered:
  "cache_fresh st \<Longrightarrow>
   answered_from (languageDict st) (JSON_stringify st) (key, ps) (fst (get st key ps))"
  by (auto simp: get_def cacheKey_def Let_def cache_fresh_def produced_under_def
      answered_from_def split: option.splits sum.splits)

lemma cache_fresh_document: "cache_fresh (st\<lparr>document := d\<rparr>) = cache_fresh st"
  by (simp add: cache_fresh_def)

lemma translate_one_fresh: "cache_fresh st \<Longrightarrow> cache_fresh (translate_one w st x)"
proof -
  assume a: "cache_fresh st"
  obtain p key where x: "x = (p, key)" by (cases x)
  obtain r st' where g: "get st key [] = (r, st')" by (cases "get st key []")
  have "cache_fresh st'" using cache_fresh_get [OF a, of key "[]"] g by simp
  then show ?thesis
    using a x g by (cases r) (auto simp: translate_one_def cache_fresh_document)
qed

lemma translate_each_fresh: "cache_fresh st \<Longrightarrow> cache_fresh (translate_each w st xs)"
  unfolding translate_each_def
  by (rule foldl_preserves [where P = cache_fresh]) (auto intro: translate_one_fresh)

lemma translatePage_fresh: "cache_fresh st \<Longrightarrow> cache_fresh (translatePage cfg st)"
proof -
  assume a: "cache_fresh st"
  have "cache_fresh
      (foldl (\<lambda>s a. translate_each write_content s (select_all a (document s)))
         st (attributes cfg))"
    by (rule foldl_preserves [where P = cache_fresh]) (auto intro: a translate_each_fresh)
  then show ?thesis
    unfolding translatePage_def Let_def by (intro translate_each_fresh)
qed

lemma translateElement_fresh: "cache_fresh st \<Longrightarrow> cache_fresh (translateElement cfg st at)"
proof -
  assume a: "cache_fresh st"
  have 1: "cache_fresh
      (foldl (\<lambda>s a. translate_each write_text s (own_marker a at (document s)))
         st (attributes cfg))"
    by (rule foldl_preserves [where P = cache_fresh]) (auto intro: a translate_each_fresh)
  show ?thesis
    unfolding translateElement_def Let_def
    by (rule foldl_preserves [where P = cache_fresh]) (auto intro: 1 translate_each_fresh)
qed

lemma destroy_fresh: "cache_fresh (destroy st)"
  by (simp add: destroy_def cache_fresh_def)

lemma saveLanguage_fresh: "cache_fresh (saveLanguage cfg st lang) = cache_fresh st"
  by (simp add: saveLanguage_def cache_fresh_def split: option.splits)

lemma activated_fresh: "cache_fresh (activated cfg st1 lang d)"
proof -
  have "cache_fresh (st1\<lparr>languageDict := d, currentLanguage := Some lang,
                        translationCache := Map.empty\<rparr>)"
    by (simp add: cache_fresh_def)
  then show ?thesis
    by (simp add: activated_def Let_def cache_fresh_document translatePage_fresh
        saveLanguage_fresh)
qed

lemma activated_installed:
  assumes "fetch_json st1 (languagePath cfg @ lang @ ''.json'') = Some d"
  shows "installed cfg (activated cfg st1 lang d)"
proof -
  let ?st3 = "saveLanguage cfg (st1\<lparr>languageDict := d, currentLanguage := Some lang,
                        translationCache := Map.empty\<rparr>) lang"
  have f: "languageDict ?st3 = d" "currentLanguage ?st3 = Some lang"
    "fetch_json ?st3 = fetch_json st1"
    by (simp_all add: saveLanguage_def split: option.splits)
  show ?thesis
    using assms f pass_frame_fields(1-3) [OF translatePage_frame [of ?st3 cfg]]
    by (simp add: installed_def activated_def Let_def)
qed

lemma setLanguage_success:
  "setLanguage cfg st lang0 = (True, st') \<Longrightarrow> cache_fresh st' \<and> installed cfg st'"
proof (induction cfg st lang0 rule: setLanguage.induct)
  case (1 cfg st lang0)
  define lang where "lang = (if lang0 \<in> set (available st) then lang0 else fallbackLanguage cfg)"
  define st1 where "st1 = st\<lparr>requests := requests st @ [languagePath cfg @ lang @ ''.json'']\<rparr>"
  have load: "loadLanguageFile cfg st lang =
      (fetch_json st (languagePath cfg @ lang @ ''.json''), st1)"
    by (simp add: loadLanguageFile_def st1_def Let_def)
  show ?case
  proof (cases "fetch_json st (languagePath cfg @ lang @ ''.json'')")
    case None
    with "1.prems" load have "lang \<noteq> fallbackLanguage cfg"
      and "setLanguage cfg st1 (fallbackLanguage cfg) = (True, st')"
      by (subst (asm) setLanguage.simps, simp add: lang_def [symmetric] split: if_splits)+
    then show ?thesis
      using "1.IH"(1) [OF lang_def load [symmetric] None] by simp
  next
    case (Some d)
    define st5 where "st5 = activated cfg st1 lang d"
    have st5: "cache_fresh st5" "installed cfg st5"
      using activated_fresh activated_installed [of st1 cfg lang d] Some
      by (simp_all add: st5_def st1_def)
    note unf = lang_def [symmetric] load Some st5_def activated_def Let_def
    show ?thesis
    proof (cases "onLanguageChange cfg")
      case None
      then have "setLanguage cfg st lang0 = (True, st5)"
        by (subst setLanguage.simps) (simp add: unf)
      with "1.prems" st5 show ?thesis by simp
    next
      case cb: (Some callback)
      show ?thesis
      proof (cases "callback lang")
        case Returns
        with cb have "setLanguage cfg st lang0 = (True, st5)"
          by (subst setLanguage.simps) (simp add: unf)
        with "1.prems" st5 show ?thesis by simp
      next
        case Throws
        with cb have "setLanguage cfg st lang0 =
            (if lang \<noteq> fallbackLanguage cfg then setLanguage cfg st5 (fallbackLanguage cfg)
             else (False, st5))"
          by (subst setLanguage.simps) (simp add: unf)
        with "1.prems" have ne: "lang \<noteq> fallbackLanguage cfg"
          and rec: "setLanguage cfg st5 (fallbackLanguage cfg) = (True, st')"
          by (simp_all split: if_splits)
        show ?thesis
          using "1.IH"(2) [OF lang_def load [symmetric] Some refl refl refl _ cb Throws ne] rec
          by (simp add: st5_def activated_def Let_def)
      qed
    qed
  qed
qed

lemma get_many_answered:
  "cache_fresh st \<Longrightarrow>
   list_all2 (answered_from (languageDict st) (JSON_stringify st)) calls (fst (get_many st calls))"
proof (induction calls arbitrary: st)
  case Nil
  show ?case by simp
next
  case (Cons call calls)
  obtain key ps where c: "call = (key, ps)" by (cases call)
  let ?st1 = "snd (get st key ps)"
  have f: "languageDict ?st1 = languageDict st" "JSON_stringify ?st1 = JSON_stringify st"
    using pass_frame_fields(1,4) [OF get_frame [of st key ps]] by simp_all
  have "list_all2 (answered_from (languageDict st) (JSON_stringify st)) calls
      (fst (get_many ?st1 calls))"
    using Cons.IH [OF cache_fresh_get [OF Cons.prems, of key ps]] f by simp
  then show ?case
    unfolding c get_many_fst using get_answered [OF Cons.prems, of key ps] by simp
qed

lemma french_to_english:
  "setLanguage example_config french_instance ''en'' = (True, english_instance)"
  by (subst setLanguage.simps)
     (simp add: instance_defs get_defs page_defs lang_defs english_instance_def english_page_def)

lemma activated_forgets_cache:
  "activated cfg (st1\<lparr>translationCache := c\<rparr>) lang d = activated cfg st1 lang d"
  by (simp add: activated_def)

text \<open>
  An activation that succeeds never reads the cache it starts with: started with any
  other cache, it returns the same and leaves the same instance, page and cache
  included.
\<close>

lemma setLanguage_forgets_cache:
  "setLanguage cfg st lang0 = (True, st') \<Longrightarrow>
   setLanguage cfg (st\<lparr>translationCache := c\<rparr>) lang0 = (True, st')"
proof (induction cfg st lang0 rule: setLanguage.induct)
  case (1 cfg st lang0)
  define lang where "lang = (if lang0 \<in> set (available st) then lang0 else fallbackLanguage cfg)"
  define st1 where "st1 = st\<lparr>requests := requests st @ [languagePath cfg @ lang @ ''.json'']\<rparr>"
  have load: "loadLanguageFile cfg st lang =
      (fetch_json st (languagePath cfg @ lang @ ''.json''), st1)"
    by (simp add: loadLanguageFile_def st1_def Let_def)
  have av: "available (st\<lparr>translationCache := c\<rparr>) = available st"
    by (simp add: available_def)
  have load': "loadLanguageFile cfg (st\<lparr>translationCache := c\<rparr>) lang =
      (fetch_json st (languagePath cfg @ lang @ ''.json''), st1\<lparr>translationCache := c\<rparr>)"
    by (simp add: loadLanguageFile_def st1_def Let_def)
  show ?case
  proof (cases "fetch_json st (languagePath cfg @ lang @ ''.json'')")
    case None
    with "1.prems" load have ne: "lang \<noteq> fallbackLanguage cfg"
      and rec: "setLanguage cfg st1 (fallbackLanguage cfg) = (True, st')"
      by (subst (asm) setLanguage.simps, simp add: lang_def [symmetric] split: if_splits)+
    have "setLanguage cfg (st1\<lparr>translationCache := c\<rparr>) (fallbackLanguage cfg) = (True, st')"
      using "1.IH"(1) [OF lang_def load [symmetric] None ne rec] .
    with ne show ?thesis
      by (subst setLanguage.simps) (simp add: av lang_def [symmetric] load' None)
  next
    case (Some d)
    define st5 where "st5 = activated cfg st1 lang d"
    note unf = lang_def [symmetric] load Some st5_def activated_def Let_def
    note unf' = av lang_def [symmetric] load' Some st5_def activated_def Let_def
    show ?thesis
    proof (cases "onLanguageChange cfg")
      case None
      then have "setLanguage cfg st lang0 = (True, st5)"
        by (subst setLanguage.simps) (simp add: unf)
      moreover from None have "setLanguage cfg (st\<lparr>translationCache := c\<rparr>) lang0 = (True, st5)"
        by (subst setLanguage.simps) (simp add: unf')
      ultimately show ?thesis using "1.prems" by simp
    next
      case cb: (Some callback)
      show ?thesis
      proof (cases "callback lang")
        case Returns
        with cb have "setLanguage cfg st lang0 = (True, st5)"
          by (subst setLanguage.simps) (simp add: unf)
        moreover from cb Returns
        have "setLanguage cfg (st\<lparr>translationCache := c\<rparr>) lang0 = (True, st5)"
          by (subst setLanguage.simps) (simp add: unf')
        ultimately show ?thesis using "1.prems" by simp
      next
        case Throws
        with cb have "setLanguage cfg st lang0 =
            (if lang \<noteq> fallbackLanguage cfg then setLanguage cfg st5 (fallbackLanguage cfg)
             else (False, st5))"
          by (subst setLanguage.simps) (simp add: unf)
        moreover from cb Throws have "setLanguage cfg (st\<lparr>translationCache := c\<rparr>) lang0 =
            (if lang \<noteq> fallbackLanguage cfg then setLanguage cfg st5 (fallbackLanguage cfg)
             else (False, st5))"
          by (subst setLanguage.simps) (simp add: unf')
        ultimately show ?thesis using "1.prems" by simp
      qed
    qed
  qed
qed

text \<open>
  What a successful activation leaves is what the \<^verbatim>\<open>try\<close> block makes of some
  dictionary of the source, starting its full pass with an empty cache.
\<close>

lemma setLanguage_success_shape:
  "setLanguage cfg st lang0 = (True, st') \<Longrightarrow>
   \<exists>lang d s. fetch_json st (languagePath cfg @ lang @ ''.json'') = Some d
     \<and> st' = activated cfg s lang d"
proof (induction cfg st lang0 rule: setLanguage.induct)
  case (1 cfg st lang0)
  define lang where "lang = (if lang0 \<in> set (available st) then lang0 else fallbackLanguage cfg)"
  define st1 where "st1 = st\<lparr>requests := requests st @ [languagePath cfg @ lang @ ''.json'']\<rparr>"
  have load: "loadLanguageFile cfg st lang =
      (fetch_json st (languagePath cfg @ lang @ ''.json''), st1)"
    by (simp add: loadLanguageFile_def st1_def Let_def)
  show ?case
  proof (cases "fetch_json st (languagePath cfg @ lang @ ''.json'')")
    case None
    with "1.prems" load have ne: "lang \<noteq> fallbackLanguage cfg"
      and rec: "setLanguage cfg st1 (fallbackLanguage cfg) = (True, st')"
      by (subst (asm) setLanguage.simps, simp add: lang_def [symmetric] split: if_splits)+
    show ?thesis
      using "1.IH"(1) [OF lang_def load [symmetric] None ne rec] by (simp add: st1_def)
  next
    case (Some d)
    define st5 where "st5 = activated cfg st1 lang d"
    have f5: "fetch_json st5 = fetch_json st"
    proof -
      let ?st3 = "saveLanguage cfg (st1\<lparr>languageDict := d, currentLanguage := Some lang,
                        translationCache := Map.empty\<rparr>) lang"
      have "fetch_json ?st3 = fetch_json st"
        by (simp add: saveLanguage_def st1_def split: option.splits)
      then show ?thesis
        using pass_frame_fields(3) [OF translatePage_frame [of ?st3 cfg]]
        by (simp add: st5_def activated_def Let_def)
    qed
    note unf = lang_def [symmetric] load Some st5_def activated_def Let_def
    show ?thesis
    proof (cases "onLanguageChange cfg")
      case None
      then have "setLanguage cfg st lang0 = (True, st5)"
        by (subst setLanguage.simps) (simp add: unf)
      with "1.prems" Some show ?thesis unfolding st5_def by auto
    next
      case cb: (Some callback)
      show ?thesis
      proof (cases "callback lang")
        case Returns
        with cb have "setLanguage cfg st lang0 = (True, st5)"
          by (subst setLanguage.simps) (simp add: unf)
        with "1.prems" Some show ?thesis unfolding st5_def by auto
      next
        case Throws
        with cb have "setLanguage cfg st lang0 =
            (if lang \<noteq> fallbackLanguage cfg then setLanguage cfg st5 (fallbackLanguage cfg)
             else (False, st5))"
          by (subst setLanguage.simps) (simp add: unf)
        with "1.prems" have ne: "lang \<noteq> fallbackLanguage cfg"
          and rec: "setLanguage cfg st5 (fallbackLanguage cfg) = (True, st')"
          by (simp_all split: if_splits)
        have "\<exists>lang d s. fetch_json st5 (languagePath cfg @ lang @ ''.json'') = Some d
            \<and> st' = activated cfg s lang d"
          using "1.IH"(2) [OF lang_def load [symmetric] Some refl refl refl _ cb Throws ne] rec
          by (simp add: st5_def activated_def Let_def)
        then show ?thesis by (simp add: f5)
      qed
    qed
  qed
qed

text \<open>
  C5. When \<^verbatim>\<open>setLanguage\<close> returns \<^verbatim>\<open>true\<close>, nothing of what it leaves depends on
  the cache it started with: started with any other cache it returns \<^verbatim>\<open>true\<close> with
  the same instance, the page its full pass has written included. That instance is what
  the \<^verbatim>\<open>try\<close> block makes of a dictionary of the source when its full pass starts with
  an empty cache. Its dictionary is the one the source holds for the active language,
  every entry of its cache was produced by resolving against that dictionary, and every
  call of \<^verbatim>\<open>get\<close> from then on is answered from that dictionary: it returns a value
  produced under it for the call's cache key, or throws what resolving against it
  throws.
\<close>

theorem C5_cache_is_of_the_active_dictionary:
  assumes "setLanguage cfg st lang = (True, st1)"
  shows "setLanguage cfg (st\<lparr>translationCache := c\<rparr>) lang = (True, st1)
    \<and> (\<exists>l d s. fetch_json st (languagePath cfg @ l @ ''.json'') = Some d
          \<and> st1 = activated cfg s l d)
    \<and> installed cfg st1 \<and> cache_fresh st1
    \<and> list_all2 (answered_from (languageDict st1) (JSON_stringify st1)) calls
         (fst (get_many st1 calls))"
  using setLanguage_forgets_cache [OF assms] setLanguage_success_shape [OF assms]
    setLanguage_success [OF assms] get_many_answered by blast

theorem C5_cache_is_of_the_active_dictionary_witness:
  "setLanguage example_config french_instance ''en'' = (True, english_instance)
   \<and> translationCache french_instance ''nav.home_{}'' = Some (JStr ''Accueil'')
   \<and> setLanguage example_config (french_instance\<lparr>translationCache := Map.empty\<rparr>) ''en''
        = (True, english_instance)
   \<and> document english_instance = english_page
   \<and> installed example_config english_instance
   \<and> cache_fresh english_instance
   \<and> list_all2 (answered_from english simple_stringify) [(''nav.home'', [])]
        (fst (get_many english_instance [(''nav.home'', [])]))
   \<and> fst (get_many english_instance [(''nav.home'', [])]) = [Inr (JStr ''Home'')]"
proof -
  have d: "languageDict english_instance = english"
    "JSON_stringify english_instance = simple_stringify"
    "document english_instance = english_page"
    by (simp_all add: english_instance_def french_instance_def example_instance_def)
  have r: "fst (get_many english_instance [(''nav.home'', [])]) = [Inr (JStr ''Home'')]"
    by (simp add: english_instance_def instance_defs get_defs)
  have s: "translationCache french_instance ''nav.home_{}'' = Some (JStr ''Accueil'')"
    by (simp add: instance_defs)
  show ?thesis
    using C5_cache_is_of_the_active_dictionary
        [OF french_to_english, of Map.empty "[(''nav.home'', [])]"]
      french_to_english r s d(3)
    unfolding d(1,2) by blast
qed

subsection \<open>\<^verbatim>\<open>getAvailableLanguages\<close>\<close>

text \<open>
  Only the instance's own array is read: \<^verbatim>\<open>get\<close>, the translation passes and
  \<^verbatim>\<open>setLanguage\<close> run the same in another state of the arrays that holds the same
  array for the instance.
\<close>

lemma get_with_arrays:
  "get (with_arrays A n st) key ps = (fst (get st key ps), with_arrays A n (snd (get st key ps)))"
  by (simp add: get_def cacheKey_def with_arrays_def Let_def split: option.splits sum.splits)

lemma translate_one_with_arrays:
  "translate_one w (with_arrays A n st) x = with_arrays A n (translate_one w st x)"
proof -
  obtain p key where x: "x = (p, key)" by (cases x)
  obtain r st' where g: "get st key [] = (r, st')" by (cases "get st key []")
  show ?thesis
    using g by (cases r) (simp_all add: translate_one_def x get_with_arrays, simp_all add: with_arrays_def)
qed

lemma translate_each_with_arrays:
  "translate_each w (with_arrays A n st) xs = with_arrays A n (translate_each w st xs)"
  unfolding translate_each_def
  by (induction xs arbitrary: st) (simp_all add: translate_one_with_arrays)

lemma document_with_arrays [simp]: "document (with_arrays A n st) = document st"
  by (simp add: with_arrays_def)

lemma fold_pass_with_arrays:
  "foldl (\<lambda>s a. translate_each w s (sel a (document s))) (with_arrays A n st) as =
   with_arrays A n (foldl (\<lambda>s a. translate_each w s (sel a (document s))) st as)"
  by (induction as arbitrary: st) (simp_all add: translate_each_with_arrays)

lemma translatePage_with_arrays:
  "translatePage cfg (with_arrays A n st) = with_arrays A n (translatePage cfg st)"
  by (simp add: translatePage_def Let_def fold_pass_with_arrays translate_each_with_arrays)

lemma activated_with_arrays:
  "activated cfg (with_arrays A n st) lang d = with_arrays A n (activated cfg st lang d)"
proof -
  have "saveLanguage cfg (with_arrays A n st\<lparr>languageDict := d, currentLanguage := Some lang,
          translationCache := Map.empty\<rparr>) lang
      = with_arrays A n (saveLanguage cfg (st\<lparr>languageDict := d, currentLanguage := Some lang,
          translationCache := Map.empty\<rparr>) lang)"
    by (simp add: saveLanguage_def with_arrays_def split: option.splits)
  then show ?thesis
    by (simp add: activated_def Let_def translatePage_with_arrays) (simp add: with_arrays_def)
qed


lemma pass_frame_arrays:
  assumes "pass_frame a b"
  shows "arrays b = arrays a" and "availableLanguages b = availableLanguages a"
proof -
  obtain c n d where b: "b = a\<lparr>translationCache := c, walks := n, document := d\<rparr>"
    using assms unfolding pass_frame_def by blast
  show "arrays b = arrays a" and "availableLanguages b = availableLanguages a"
    by (simp_all add: b)
qed

lemma activated_arrays:
  "arrays (activated cfg st1 lang d) = arrays st1"
  "availableLanguages (activated cfg st1 lang d) = availableLanguages st1"
proof -
  let ?st3 = "saveLanguage cfg (st1\<lparr>languageDict := d, currentLanguage := Some lang,
                        translationCache := Map.empty\<rparr>) lang"
  have f: "arrays ?st3 = arrays st1" "availableLanguages ?st3 = availableLanguages st1"
    by (simp_all add: saveLanguage_def split: option.splits)
  show "arrays (activated cfg st1 lang d) = arrays st1"
    "availableLanguages (activated cfg st1 lang d) = availableLanguages st1"
    using f pass_frame_arrays [OF translatePage_frame [of ?st3 cfg]]
    by (simp_all add: activated_def Let_def)
qed

lemma detectLanguage_depends:
  assumes "available st' = available st" and "localStorage st' = localStorage st"
    and "navigator_language st' = navigator_language st"
    and "navigator_userLanguage st' = navigator_userLanguage st"
    and "toLowerCase st' = toLowerCase st"
  shows "detectLanguage cfg st' = detectLanguage cfg st"
  using assms
  by (simp add: detectLanguage_def getStoredLanguage_def browser_locale_def
      cong: option.case_cong if_cong)

lemma available_with_arrays:
  "A (availableLanguages st) = arrays st (availableLanguages st) \<Longrightarrow>
   available (with_arrays A n st) = available st"
  by (simp add: available_def with_arrays_def)

lemma setLanguage_with_arrays:
  assumes "A (availableLanguages st) = arrays st (availableLanguages st)"
  shows "setLanguage cfg (with_arrays A n st) lang0 =
     (fst (setLanguage cfg st lang0), with_arrays A n (snd (setLanguage cfg st lang0)))"
  using assms
proof (induction cfg st lang0 rule: setLanguage.induct)
  case (1 cfg st lang0)
  define lang where "lang = (if lang0 \<in> set (available st) then lang0 else fallbackLanguage cfg)"
  define st1 where "st1 = st\<lparr>requests := requests st @ [languagePath cfg @ lang @ ''.json'']\<rparr>"
  have av: "available (with_arrays A n st) = available st"
    using "1.prems" by (rule available_with_arrays)
  have load: "loadLanguageFile cfg st lang =
      (fetch_json st (languagePath cfg @ lang @ ''.json''), st1)"
    by (simp add: loadLanguageFile_def st1_def Let_def)
  have load': "loadLanguageFile cfg (with_arrays A n st) lang =
      (fetch_json st (languagePath cfg @ lang @ ''.json''), with_arrays A n st1)"
    by (simp add: loadLanguageFile_def st1_def Let_def with_arrays_def)
  have keep1: "A (availableLanguages st1) = arrays st1 (availableLanguages st1)"
    using "1.prems" by (simp add: st1_def)
  show ?case
  proof (cases "fetch_json st (languagePath cfg @ lang @ ''.json'')")
    case None
    have l: "setLanguage cfg st lang0 =
        (if lang \<noteq> fallbackLanguage cfg then setLanguage cfg st1 (fallbackLanguage cfg)
         else (False, st1))"
      by (subst setLanguage.simps) (simp add: lang_def [symmetric] load None)
    have r: "setLanguage cfg (with_arrays A n st) lang0 =
        (if lang \<noteq> fallbackLanguage cfg
         then setLanguage cfg (with_arrays A n st1) (fallbackLanguage cfg)
         else (False, with_arrays A n st1))"
      by (subst setLanguage.simps) (simp add: av lang_def [symmetric] load' None)
    show ?thesis
    proof (cases "lang = fallbackLanguage cfg")
      case True
      with l r show ?thesis by simp
    next
      case False
      with l r "1.IH"(1) [OF lang_def load [symmetric] None False keep1]
      show ?thesis by simp
    qed
  next
    case (Some d)
    define st5 where "st5 = activated cfg st1 lang d"
    have st5': "activated cfg (with_arrays A n st1) lang d = with_arrays A n st5"
      by (simp add: st5_def activated_with_arrays)
    have keep5: "A (availableLanguages st5) = arrays st5 (availableLanguages st5)"
      using keep1 by (simp add: st5_def activated_arrays)
    note unf = lang_def [symmetric] load Some st5_def activated_def Let_def
    note unf' = av lang_def [symmetric] load' Some st5' [symmetric] activated_def Let_def
    show ?thesis
    proof (cases "onLanguageChange cfg")
      case None
      then have "setLanguage cfg st lang0 = (True, st5)"
        by (subst setLanguage.simps) (simp add: unf)
      moreover from None have "setLanguage cfg (with_arrays A n st) lang0 = (True, with_arrays A n st5)"
        by (subst setLanguage.simps) (simp add: unf')
      ultimately show ?thesis by simp
    next
      case cb: (Some callback)
      show ?thesis
      proof (cases "callback lang")
        case Returns
        with cb have "setLanguage cfg st lang0 = (True, st5)"
          by (subst setLanguage.simps) (simp add: unf)
        moreover from cb Returns
        have "setLanguage cfg (with_arrays A n st) lang0 = (True, with_arrays A n st5)"
          by (subst setLanguage.simps) (simp add: unf')
        ultimately show ?thesis by simp
      next
        case Throws
        with cb have l: "setLanguage cfg st lang0 =
            (if lang \<noteq> fallbackLanguage cfg then setLanguage cfg st5 (fallbackLanguage cfg)
             else (False, st5))"
          by (subst setLanguage.simps) (simp add: unf)
        from cb Throws have r: "setLanguage cfg (with_arrays A n st) lang0 =
            (if lang \<noteq> fallbackLanguage cfg
             then setLanguage cfg (with_arrays A n st5) (fallbackLanguage cfg)
             else (False, with_arrays A n st5))"
          by (subst setLanguage.simps) (simp add: unf')
        show ?thesis
        proof (cases "lang = fallbackLanguage cfg")
          case True
          with l r show ?thesis by simp
        next
          case False
          have "setLanguage cfg (with_arrays A n st5) (fallbackLanguage cfg) =
             (fst (setLanguage cfg st5 (fallbackLanguage cfg)),
              with_arrays A n (snd (setLanguage cfg st5 (fallbackLanguage cfg))))"
            using "1.IH"(2) [OF lang_def load [symmetric] Some refl refl refl _ cb Throws False] keep5
            by (simp add: st5_def activated_def Let_def)
          with l r False show ?thesis by simp
        qed
      qed
    qed
  qed
qed

text \<open>
  C10. \<^verbatim>\<open>getAvailableLanguages\<close> returns a new array with the elements of the
  instance's: whatever is written into the returned array afterwards, the instance's
  list is the same, \<^verbatim>\<open>isLanguageAvailable\<close> and \<^verbatim>\<open>detectLanguage\<close> answer the same,
  and \<^verbatim>\<open>setLanguage\<close> returns the same and leaves the same instance, the arrays
  apart. The instance's own array was allocated before the call.
\<close>

theorem C10_returned_array_is_a_copy:
  assumes "availableLanguages st < next_ref st"
    and "getAvailableLanguages st = (r, st')"
  shows "arrays st' r = Some (available st)
    \<and> r \<noteq> availableLanguages st'
    \<and> available st' = available st
    \<and> available (st'\<lparr>arrays := (arrays st')(r \<mapsto> xs)\<rparr>) = available st
    \<and> isLanguageAvailable (st'\<lparr>arrays := (arrays st')(r \<mapsto> xs)\<rparr>) lang
         = isLanguageAvailable st lang
    \<and> detectLanguage cfg (st'\<lparr>arrays := (arrays st')(r \<mapsto> xs)\<rparr>) = detectLanguage cfg st
    \<and> setLanguage cfg (st'\<lparr>arrays := (arrays st')(r \<mapsto> xs)\<rparr>) lang =
         (fst (setLanguage cfg st lang),
          (snd (setLanguage cfg st lang))\<lparr>arrays := (arrays st')(r \<mapsto> xs), next_ref := next_ref st'\<rparr>)"
proof -
  define A where "A = (arrays st)(next_ref st \<mapsto> xs)"
  have r: "r = next_ref st"
    and st': "st' = st\<lparr>arrays := (arrays st)(next_ref st \<mapsto> available st),
                        next_ref := Suc (next_ref st)\<rparr>"
    using assms(2) by (auto simp: getAvailableLanguages_def Let_def)
  have mutated: "st'\<lparr>arrays := (arrays st')(r \<mapsto> xs)\<rparr> = with_arrays A (Suc (next_ref st)) st"
    by (simp add: r st' A_def with_arrays_def)
  have same: "A (availableLanguages st) = arrays st (availableLanguages st)"
    using assms(1) by (simp add: A_def)
  have a1: "available st' = available st"
    using assms(1) by (simp add: available_def st')
  have a2: "available (with_arrays A (Suc (next_ref st)) st) = available st"
    using same by (rule available_with_arrays)
  have d: "detectLanguage cfg (with_arrays A (Suc (next_ref st)) st) = detectLanguage cfg st"
    by (rule detectLanguage_depends) (simp_all add: a2, simp_all add: with_arrays_def)
  have s: "setLanguage cfg (with_arrays A (Suc (next_ref st)) st) lang =
      (fst (setLanguage cfg st lang),
       with_arrays A (Suc (next_ref st)) (snd (setLanguage cfg st lang)))"
    using same by (rule setLanguage_with_arrays)
  have "arrays st' r = Some (available st)" "r \<noteq> availableLanguages st'"
    using assms(1) by (simp_all add: r st')
  then show ?thesis
    unfolding mutated using a1 a2 d s
    by (simp add: isLanguageAvailable_def) (simp add: with_arrays_def A_def r st')
qed

theorem C10_returned_array_is_a_copy_witness:
  "availableLanguages example_instance < next_ref example_instance
   \<and> getAvailableLanguages example_instance = (1, copied_instance)
   \<and> available example_instance = [''en'', ''fr'']
   \<and> available (copied_instance\<lparr>arrays := (arrays copied_instance)(1 \<mapsto> [''de''])\<rparr>)
        = [''en'', ''fr'']
   \<and> isLanguageAvailable
        (copied_instance\<lparr>arrays := (arrays copied_instance)(1 \<mapsto> [''de''])\<rparr>) ''de''
        = isLanguageAvailable example_instance ''de''
   \<and> \<not> isLanguageAvailable example_instance ''de''"
proof -
  have a: "availableLanguages example_instance < next_ref example_instance"
    by (simp add: example_instance_def)
  have b: "getAvailableLanguages example_instance = (1, copied_instance)"
    by (simp add: getAvailableLanguages_def available_def example_instance_def
        copied_instance_def Let_def)
  have c: "available example_instance = [''en'', ''fr'']"
    by (simp add: available_def example_instance_def)
  have d: "\<not> isLanguageAvailable example_instance ''de''"
    by (simp add: isLanguageAvailable_def c)
  show ?thesis
    using a b c d
      C10_returned_array_is_a_copy [OF a b, where xs = "[''de'']" and lang = "''de''"
        and cfg = example_config]
    by simp
qed

subsection \<open>\<^verbatim>\<open>detectLanguage\<close>\<close>

lemma find_cong_set: "(\<And>x. x \<in> set xs \<Longrightarrow> P x = Q x) \<Longrightarrow> find P xs = find Q xs"
  by (induction xs) auto

text \<open>
  Only the locale is put into lower case before \<^verbatim>\<open>startsWith\<close>: a tag with an upper
  case letter is never found in step 2.
\<close>

lemma detectLanguage_mixed_case_tag:
  "detectLanguage example_config brazil_instance = Inr ''en''
   \<and> spec_selectInitial (toLowerCase brazil_instance)
        (getStoredLanguage example_config brazil_instance) ''pt-BR''
        (available brazil_instance) (defaultLanguage example_config) = ''pt-BR''"
  by (simp add: brazil_instance_def instance_defs detect_defs)

text \<open>
  Without any locale string from the browser, step 2 throws; step 1 does not need one.
\<close>

lemma detectLanguage_without_locale:
  "detectLanguage example_config (example_instance\<lparr>navigator_language := None\<rparr>)
     = Inl TypeError"
  by (simp add: instance_defs detect_defs)

text \<open>
  C4 (as amended). For available tags that are non-empty and in lower case,
  \<^verbatim>\<open>detectLanguage\<close> yields a tag, chosen in this order: the stored preference if it is
  one of the available tags; then, only if \<^verbatim>\<open>detectBrowser\<close> is set, the first available
  tag that is a prefix of the browser's locale string without regard to case; then the
  default language. With \<^verbatim>\<open>detectBrowser\<close> not set the locale is not looked at. The
  browser has to supply a locale only where it is looked at: \<^verbatim>\<open>detectBrowser\<close> is set
  and the stored preference is not one of the available tags.
\<close>

theorem C4_selection_order:
  assumes "lower_case_tags (toLowerCase st) (available st)"
    and "detectBrowser cfg \<Longrightarrow>
         stored_member (getStoredLanguage cfg st) (available st) = None \<Longrightarrow>
         browser_locale st = Some locale"
  shows "detectLanguage cfg st = Inr
     (if detectBrowser cfg
      then spec_selectInitial (toLowerCase st) (getStoredLanguage cfg st) locale (available st)
             (defaultLanguage cfg)
      else (case stored_member (getStoredLanguage cfg st) (available st) of
              Some s \<Rightarrow> s
            | None \<Rightarrow> defaultLanguage cfg))"
proof -
  have ne: "\<And>s. s \<in> set (available st) \<Longrightarrow> s \<noteq> []"
    using assms(1) by (auto simp: lower_case_tags_def list_all_iff)
  have f: "find (\<lambda>lang. prefix lang (toLowerCase st locale)) (available st)
      = find (\<lambda>t. ci_prefix (toLowerCase st) t locale) (available st)"
    using assms(1)
    by (intro find_cong_set) (auto simp: lower_case_tags_def list_all_iff ci_prefix_def)
  show ?thesis
  proof (cases "stored_member (getStoredLanguage cfg st) (available st)")
    case (Some s)
    then have "getStoredLanguage cfg st = Some s" and "s \<in> set (available st)"
      by (auto simp: stored_member_def split: option.splits if_splits)
    with ne [of s] Some show ?thesis
      by (simp add: detectLanguage_def spec_selectInitial_def Let_def)
  next
    case None
    then have stored: "getStoredLanguage cfg st = None
        \<or> (\<exists>s. getStoredLanguage cfg st = Some s \<and> s \<notin> set (available st))"
      by (auto simp: stored_member_def split: option.splits if_splits)
    show ?thesis
    proof (cases "detectBrowser cfg")
      case True
      with assms(2) None have "browser_locale st = Some locale" by simp
      with True f None stored show ?thesis
        by (auto simp: detectLanguage_def spec_selectInitial_def Let_def split: option.splits)
    next
      case False
      with None stored show ?thesis
        by (auto simp: detectLanguage_def Let_def split: option.splits)
    qed
  qed
qed

theorem C4_selection_order_witness:
  "lower_case_tags (toLowerCase example_instance) (available example_instance)
   \<and> detectBrowser example_config
   \<and> browser_locale canada_instance = Some ''FR-CA''
   \<and> detectLanguage example_config canada_instance = Inr ''fr''
   \<and> getStoredLanguage example_config stored_instance = Some ''fr''
   \<and> browser_locale stored_instance = None
   \<and> detectLanguage example_config stored_instance = Inr ''fr''
   \<and> \<not> detectBrowser no_detect_config
   \<and> detectLanguage no_detect_config example_instance = Inr ''en''"
proof -
  have a: "lower_case_tags (toLowerCase example_instance) (available example_instance)"
    "lower_case_tags (toLowerCase canada_instance) (available canada_instance)"
    "lower_case_tags (toLowerCase stored_instance) (available stored_instance)"
    by (simp_all add: lower_case_tags_def canada_instance_def stored_instance_def
        instance_defs detect_defs)
  have b: "browser_locale canada_instance = Some ''FR-CA''"
    "browser_locale stored_instance = None"
    by (simp_all add: canada_instance_def stored_instance_def instance_defs detect_defs)
  have c: "detectBrowser example_config" "\<not> detectBrowser no_detect_config"
    by (simp_all add: example_config_def no_detect_config_def)
  have g: "getStoredLanguage example_config stored_instance = Some ''fr''"
    by (simp add: stored_instance_def instance_defs detect_defs)
  have m: "stored_member (getStoredLanguage example_config stored_instance)
      (available stored_instance) = Some ''fr''"
    by (simp add: stored_instance_def instance_defs detect_defs)
  have s1: "spec_selectInitial (toLowerCase canada_instance)
        (getStoredLanguage example_config canada_instance) ''FR-CA''
        (available canada_instance) (defaultLanguage example_config) = ''fr''"
    by (simp add: canada_instance_def instance_defs detect_defs)
  have s2: "spec_selectInitial (toLowerCase stored_instance)
        (getStoredLanguage example_config stored_instance) ''''
        (available stored_instance) (defaultLanguage example_config) = ''fr''"
    by (simp add: stored_instance_def instance_defs detect_defs)
  have t: "(case stored_member (getStoredLanguage no_detect_config example_instance)
                (available example_instance) of
              Some s \<Rightarrow> s
            | None \<Rightarrow> defaultLanguage no_detect_config) = ''en''"
    by (simp add: no_detect_config_def instance_defs detect_defs)
  have 1: "detectLanguage example_config canada_instance = Inr ''fr''"
    using C4_selection_order [OF a(2), of example_config "''FR-CA''"] b(1) c(1) s1 by simp
  have 2: "detectLanguage example_config stored_instance = Inr ''fr''"
    using C4_selection_order [OF a(3), of example_config "''''"] m c(1) s2 by simp
  have 3: "detectLanguage no_detect_config example_instance = Inr ''en''"
    using C4_selection_order [OF a(1), of no_detect_config "''''"] c(2) t by simp
  show ?thesis using a(1) b c g 1 2 3 by simp
qed

text \<open>
  C4 as stated fails: with \<^verbatim>\<open>detectBrowser\<close> not set, no stored preference, the
  available tags \<^verbatim>\<open>en\<close> and \<^verbatim>\<open>fr\<close> and the locale \<^verbatim>\<open>fr-FR\<close>, the stated order
  selects \<^verbatim>\<open>fr\<close> and \<^verbatim>\<open>detectLanguage\<close> returns the default \<^verbatim>\<open>en\<close>.
\<close>

theorem C4_counterexample:
  "browser_locale example_instance = Some ''fr-FR''
   \<and> detectLanguage no_detect_config example_instance = Inr ''en''
   \<and> spec_selectInitial (toLowerCase example_instance)
        (getStoredLanguage no_detect_config example_instance) ''fr-FR''
        (available example_instance) (defaultLanguage no_detect_config) = ''fr''"
  by (simp add: no_detect_config_def instance_defs detect_defs)

subsection \<open>The two passes over the page\<close>

text \<open>On an element that is no text control the two passes write the same.\<close>

lemma write_content_text:
  "\<not> is_text_control el \<Longrightarrow> write_content src x el = write_text src x el"
  by (simp add: write_content_def write_text_def)

text \<open>
  C2 (the code departs from the claim). The page holds an \<^verbatim>\<open>input\<close> marked with
  \<^verbatim>\<open>translate\<close> and \<^verbatim>\<open>translate-placeholder\<close>. \<^verbatim>\<open>translatePage\<close> writes the
  translation into the control's value and into its \<^verbatim>\<open>placeholder\<close> attribute;
  \<^verbatim>\<open>translateElement\<close> on that same element writes it into the element's text content
  and writes no placeholder.
\<close>

theorem C2_passes_differ_on_input:
  "document (translatePage example_config form_instance) =
     Element ''HTML'' [] [] []
       [Element ''INPUT''
          [(''translate'', ''form.name''), (''translate-placeholder'', ''form.name''),
           (''placeholder'', ''Name'')] ''Name'' [] [],
        Element ''A'' [(''translate'', ''nav.home'')] [] [] [Text ''Home'']]
   \<and> document (translateElement example_config form_instance [0]) =
     Element ''HTML'' [] [] []
       [Element ''INPUT''
          [(''translate'', ''form.name''), (''translate-placeholder'', ''form.name'')]
          [] [] [Text ''Name''],
        Element ''A'' [(''translate'', ''nav.home'')] [] [] [Text ''Accueil'']]"
  by (simp add: form_instance_def instance_defs get_defs page_defs)

end
